theory Spec2Isabelle
  imports Complex_Main "HOL-Library.Log_Nat"
begin

section \<open>Python strings\<close>

text \<open>
  A Python \<open>str\<close> is modelled as a \<open>string\<close>: the list of the bytes of its UTF-8
  encoding, which for ASCII text is the list of its characters. Searching and replacing
  a substring give the same result on the encoding as on the characters. The three
  string operations the tools use are \<open>s.startswith(p)\<close> (inside the other two),
  \<open>sub in s\<close> and \<open>s.replace(old, new)\<close>.
\<close>

fun startswith :: "string \<Rightarrow> string \<Rightarrow> bool" where
  "startswith s [] = True"
| "startswith [] (p # ps) = False"
| "startswith (c # cs) (p # ps) = (c = p \<and> startswith cs ps)"

text \<open>\<open>sub in s\<close>: \<open>sub\<close> occurs in \<open>s\<close> as a contiguous run of characters.\<close>

fun str_contains :: "string \<Rightarrow> string \<Rightarrow> bool" where
  "str_contains sub [] = (sub = [])"
| "str_contains sub (c # cs) = (startswith (c # cs) sub \<or> str_contains sub cs)"

text \<open>
  \<open>s.replace(old, new)\<close> for a non-empty \<open>old\<close>: the occurrences of \<open>old\<close> are found
  from the left, without overlap, and every one of them is replaced. (For an empty \<open>old\<close>
  Python puts \<open>new\<close> before every character and at the end.)
\<close>

fun replace_scan :: "string \<Rightarrow> string \<Rightarrow> nat \<Rightarrow> string \<Rightarrow> string" where
  "replace_scan old new k [] = []"
| "replace_scan old new (Suc k) (c # cs) = replace_scan old new k cs"
| "replace_scan old new 0 (c # cs) =
     (if startswith (c # cs) old then new @ replace_scan old new (length old - 1) cs
      else c # replace_scan old new 0 cs)"

definition str_replace :: "string \<Rightarrow> string \<Rightarrow> string \<Rightarrow> string" where
  "str_replace old new s =
     (if old = [] then new @ concat (map (\<lambda>c. c # new) s)
      else replace_scan old new 0 s)"

text \<open>
  \<open>os.path.basename(p)\<close> of \<open>posixpath\<close>: \<open>i = p.rfind('/') + 1; return p[i:]\<close>, the part
  of \<open>p\<close> after its last slash.
\<close>

definition basename :: "string \<Rightarrow> string" where
  "basename p = rev (takeWhile (\<lambda>c. c \<noteq> CHR ''/'') (rev p))"

section \<open>Exceptions and \<open>int()\<close>\<close>

text \<open>
  The exceptions the tools can meet. A raise is the value \<open>Inl e\<close> of a result
  \<open>pyexc + 'a\<close>. \<open>ParseError\<close> and \<open>OSError\<close> carry the message of the parser or
  of the operating system, \<open>ValueError\<close> the literal that \<open>int()\<close> rejected.
\<close>

datatype pyexc =
    ParseError string
  | OSError string
  | ValueError string
  | TypeError
  | OverflowError
  | ZeroDivisionError

text \<open>
  \<open>int(s)\<close> on a string, base 10. CPython first maps every character beyond ASCII to
  ASCII: a Unicode white space becomes a blank, a Unicode decimal digit becomes the ASCII
  digit of its value, anything else becomes \<open>?\<close>. Then white space (\<open>\t \n \v \f \r\<close> and
  the blank) is stripped at both ends, one sign may come first, then decimal digits, where
  single underscores may stand between two digits. More than 4300 digits are refused (the
  default limit of CPython 3.11). Everything else raises \<open>ValueError\<close>.

  A \<open>string\<close> holds the UTF-8 encoding of the Python string, so the characters are
  decoded first. The tables are those of Unicode 14.0, which CPython 3.11 uses:
  \<open>nd_zeros\<close> lists the digit zero of each run of ten decimal digits.
\<close>

definition cont_at :: "string \<Rightarrow> nat \<Rightarrow> bool" where
  "cont_at bs k = (k < length bs \<and> 0x80 \<le> (of_char (bs ! k) :: nat) \<and> (of_char (bs ! k) :: nat) < 0xC0)"

definition low6 :: "string \<Rightarrow> nat \<Rightarrow> nat" where
  "low6 bs k = of_char (bs ! k) mod 64"

fun utf8_decode :: "string \<Rightarrow> nat list" where
  "utf8_decode [] = []"
| "utf8_decode (c # bs) =
     (let b = (of_char c :: nat)
      in if b < 0x80 then b # utf8_decode bs
         else if 0xC0 \<le> b \<and> b < 0xE0 \<and> cont_at bs 0
                 \<and> 0x80 \<le> (b - 0xC0) * 64 + low6 bs 0
         then ((b - 0xC0) * 64 + low6 bs 0) # utf8_decode (drop 1 bs)
         else if 0xE0 \<le> b \<and> b < 0xF0 \<and> cont_at bs 0 \<and> cont_at bs 1
                 \<and> 0x800 \<le> (b - 0xE0) * 4096 + low6 bs 0 * 64 + low6 bs 1
         then ((b - 0xE0) * 4096 + low6 bs 0 * 64 + low6 bs 1) # utf8_decode (drop 2 bs)
         else if 0xF0 \<le> b \<and> b < 0xF8 \<and> cont_at bs 0 \<and> cont_at bs 1 \<and> cont_at bs 2
                 \<and> 0x10000 \<le> (b - 0xF0) * 262144 + low6 bs 0 * 4096 + low6 bs 1 * 64 + low6 bs 2
         then ((b - 0xF0) * 262144 + low6 bs 0 * 4096 + low6 bs 1 * 64 + low6 bs 2)
                # utf8_decode (drop 3 bs)
         else 0xFFFD # utf8_decode bs)"

definition nd_zeros :: "nat list" where
  "nd_zeros =
     [48, 1632, 1776, 1984, 2406, 2534, 2662, 2790, 2918, 3046, 3174, 3302, 3430, 3558,
      3664, 3792, 3872, 4160, 4240, 6112, 6160, 6470, 6608, 6784, 6800, 6992, 7088, 7232,
      7248, 42528, 43216, 43264, 43472, 43504, 43600, 44016, 65296, 66720, 68912, 69734,
      69872, 69942, 70096, 70384, 70736, 70864, 71248, 71360, 71472, 71904, 72016, 72784,
      73040, 73120, 92768, 92864, 93008, 120782, 120792, 120802, 120812, 120822, 123200,
      123632, 125264, 130032]"

definition unicode_decimal :: "nat \<Rightarrow> nat option" where
  "unicode_decimal cp =
     (case List.find (\<lambda>z. z \<le> cp \<and> cp < z + 10) nd_zeros of
        None \<Rightarrow> None
      | Some z \<Rightarrow> Some (cp - z))"

definition unicode_space :: "nat \<Rightarrow> bool" where
  "unicode_space cp =
     (cp \<in> set [0x85, 0xA0, 0x1680, 0x2028, 0x2029, 0x202F, 0x205F, 0x3000]
      \<or> (0x2000 \<le> cp \<and> cp \<le> 0x200A))"

definition to_ascii :: "nat \<Rightarrow> nat" where
  "to_ascii cp =
     (if cp < 127 then cp
      else if unicode_space cp then 32
      else (case unicode_decimal cp of None \<Rightarrow> 63 | Some d \<Rightarrow> 48 + d))"

definition is_space :: "nat \<Rightarrow> bool" where
  "is_space c = (c \<in> set [0x09, 0x0A, 0x0B, 0x0C, 0x0D, 0x20])"

definition strip :: "nat list \<Rightarrow> nat list" where
  "strip s = rev (dropWhile is_space (rev (dropWhile is_space s)))"

definition digit_val :: "nat \<Rightarrow> nat option" where
  "digit_val c = (if 48 \<le> c \<and> c \<le> 57 then Some (c - 48) else None)"

text \<open>The underscore is the character 95, \<open>+\<close> is 43 and \<open>-\<close> is 45.\<close>

fun dec_digits :: "nat list \<Rightarrow> nat \<Rightarrow> nat option" where
  "dec_digits [] acc = Some acc"
| "dec_digits [c] acc =
     (case digit_val c of None \<Rightarrow> None | Some v \<Rightarrow> Some (acc * 10 + v))"
| "dec_digits (c # d # ds) acc =
     (if c = 95
      then (case digit_val d of None \<Rightarrow> None | Some v \<Rightarrow> dec_digits ds (acc * 10 + v))
      else (case digit_val c of None \<Rightarrow> None
            | Some v \<Rightarrow> dec_digits (d # ds) (acc * 10 + v)))"

definition dec_literal :: "nat list \<Rightarrow> nat option" where
  "dec_literal s =
     (case s of [] \<Rightarrow> None
      | c # cs \<Rightarrow> (case digit_val c of None \<Rightarrow> None | Some v \<Rightarrow> dec_digits cs v))"

definition int_max_str_digits :: int where
  "int_max_str_digits = 4300"

definition py_int :: "string \<Rightarrow> pyexc + int" where
  "py_int s =
     (let t = strip (map to_ascii (utf8_decode s));
          neg = (t \<noteq> [] \<and> hd t = 45);
          body = (if t \<noteq> [] \<and> (hd t = 45 \<or> hd t = 43) then tl t else t)
      in if int (length (filter (\<lambda>c. c \<noteq> 95) body)) > int_max_str_digits
         then Inl (ValueError s)
         else (case dec_literal body of
                 None \<Rightarrow> Inl (ValueError s)
               | Some n \<Rightarrow> Inr (if neg then - int n else int n)))"

section \<open>Python floats\<close>

text \<open>
  A \<open>float\<close> is an IEEE 754 binary64 value: a sign and a magnitude, an infinity with
  its sign, or NaN. The sign is \<open>True\<close> for negative, so \<open>Finite True 0\<close> is \<open>-0.0\<close>.
\<close>

datatype pyfloat = Finite bool rat | Infinity bool | NaN

definition pow2 :: "int \<Rightarrow> rat" where
  "pow2 k = (if 0 \<le> k then of_int (2 ^ nat k) else 1 / of_int (2 ^ nat (- k)))"

definition round_half_even :: "rat \<Rightarrow> int" where
  "round_half_even x =
     (let f = \<lfloor>x\<rfloor>; d = x - of_int f
      in if d < 1 / 2 then f else if 1 / 2 < d then f + 1
         else if even f then f else f + 1)"

text \<open>\<open>ilog2 q\<close> is the \<open>k\<close> with \<open>2^k \<le> q < 2^(k+1)\<close>, for a positive \<open>q\<close>.\<close>

definition ilog2 :: "rat \<Rightarrow> int" where
  "ilog2 q =
     (case quotient_of q of (n, d) \<Rightarrow>
        (let k = bitlen n - bitlen d in if pow2 k \<le> q then k else k - 1))"

text \<open>
  Rounding a magnitude to the nearest binary64 value, ties to even: 53 significant bits,
  and steps of \<open>2^-1074\<close> in the subnormal range. A result of \<open>2^1024\<close> or more is an
  overflow, which IEEE arithmetic turns into an infinity.
\<close>

definition binary64_round :: "rat \<Rightarrow> rat" where
  "binary64_round q =
     (if q \<le> 0 then 0
      else (let e = max (- 1074) (ilog2 q - 52)
            in of_int (round_half_even (q / pow2 e)) * pow2 e))"

definition to_binary64 :: "bool \<Rightarrow> rat \<Rightarrow> pyfloat" where
  "to_binary64 s q =
     (let r = binary64_round q in if pow2 1024 \<le> r then Infinity s else Finite s r)"

text \<open>
  \<open>a / b\<close> on two \<open>int\<close>s: the quotient correctly rounded, \<open>ZeroDivisionError\<close> for
  \<open>b = 0\<close> and \<open>OverflowError\<close> when the quotient is too large for a float.
\<close>

definition int_truediv :: "int \<Rightarrow> int \<Rightarrow> pyexc + pyfloat" where
  "int_truediv a b =
     (if b = 0 then Inl ZeroDivisionError
      else (case to_binary64 ((a < 0) \<noteq> (b < 0)) (\<bar>of_int a / of_int b\<bar>) of
              Finite s m \<Rightarrow> Inr (Finite s m)
            | _ \<Rightarrow> Inl OverflowError))"

text \<open>\<open>x * y\<close> on two floats: IEEE multiplication, which never raises.\<close>

fun float_mul :: "pyfloat \<Rightarrow> pyfloat \<Rightarrow> pyfloat" where
  "float_mul (Finite s m) (Finite t n) = to_binary64 (s \<noteq> t) (m * n)"
| "float_mul (Finite s m) (Infinity t) = (if m = 0 then NaN else Infinity (s \<noteq> t))"
| "float_mul (Infinity s) (Finite t n) = (if n = 0 then NaN else Infinity (s \<noteq> t))"
| "float_mul (Infinity s) (Infinity t) = Infinity (s \<noteq> t)"
| "float_mul _ _ = NaN"

text \<open>
  \<open>round(x, ndigits)\<close> on a float, for \<open>0 \<le> ndigits\<close>: infinities and NaN round to
  themselves; beyond 323 digits nothing changes; otherwise the exact value of \<open>x\<close> is
  rounded to \<open>ndigits\<close> decimals, ties to even, and the decimal result is converted back
  to the nearest float. An overflow there raises \<open>OverflowError\<close>.
\<close>

fun py_round :: "pyfloat \<Rightarrow> nat \<Rightarrow> pyexc + pyfloat" where
  "py_round (Finite s m) ndigits =
     (if 323 < ndigits then Inr (Finite s m)
      else (case to_binary64 s (of_int (round_half_even (m * 10 ^ ndigits)) / 10 ^ ndigits) of
              Finite s' m' \<Rightarrow> Inr (Finite s' m')
            | _ \<Rightarrow> Inl OverflowError))"
| "py_round x ndigits = Inr x"

text \<open>
  \<open>a / b\<close> on two floats raises \<open>ZeroDivisionError\<close> for a zero divisor of either sign
  and is the IEEE quotient otherwise. \<open>b == 0\<close> holds for both zeros and for nothing else.
\<close>

fun float_is_zero :: "pyfloat \<Rightarrow> bool" where
  "float_is_zero (Finite s m) = (m = 0)"
| "float_is_zero _ = False"

fun ieee_div :: "pyfloat \<Rightarrow> pyfloat \<Rightarrow> pyfloat" where
  "ieee_div (Finite s m) (Finite t n) =
     (if n = 0 then (if m = 0 then NaN else Infinity (s \<noteq> t))
      else to_binary64 (s \<noteq> t) (m / n))"
| "ieee_div (Finite s m) (Infinity t) = Finite (s \<noteq> t) 0"
| "ieee_div (Infinity s) (Finite t n) = Infinity (s \<noteq> t)"
| "ieee_div _ _ = NaN"

definition float_truediv :: "pyfloat \<Rightarrow> pyfloat \<Rightarrow> pyexc + pyfloat" where
  "float_truediv a b = (if float_is_zero b then Inl ZeroDivisionError else Inr (ieee_div a b))"

section \<open>The arithmetic tools\<close>

text \<open>
  \<open>divide(a, b)\<close>: \<open>if b == 0: return float('inf')\<close>, then \<open>return a / b\<close>.
\<close>

definition divide_tool :: "pyfloat \<Rightarrow> pyfloat \<Rightarrow> pyexc + pyfloat" where
  "divide_tool a b =
     (if float_is_zero b then Inr (Infinity False) else float_truediv a b)"

section \<open>XML trees and the world outside\<close>

text \<open>
  An \<open>xml.etree.ElementTree.Element\<close>: its tag, its attribute dictionary and its child
  elements, in document order. \<open>attr_get\<close> is \<open>elem.get(key)\<close>, which is \<open>None\<close> for
  a missing attribute.
\<close>

datatype xml = Element (tag: string) (attrib: "(string \<times> string) list") (children: "xml list")

definition attr_get :: "xml \<Rightarrow> string \<Rightarrow> string option" where
  "attr_get elem key = map_of (attrib elem) key"

text \<open>
  \<open>elem.iter()\<close> walks the element and everything below it in document order. The
  path \<open>.//name\<close> of \<open>findall\<close> selects the elements of \<open>elem.iter(name)\<close> other than
  \<open>elem\<close> itself, and a predicate \<open>[@key='value']\<close> keeps those whose attribute
  \<open>key\<close> is \<open>value\<close>.
\<close>

fun iter :: "xml \<Rightarrow> xml list" where
  "iter (Element t a cs) = Element t a cs # concat (map iter cs)"

definition descendants :: "xml \<Rightarrow> xml list" where
  "descendants elem = concat (map iter (children elem))"

definition findall :: "string \<Rightarrow> xml \<Rightarrow> xml list" where
  "findall name elem = filter (\<lambda>e. tag e = name) (descendants elem)"

definition findall_attr :: "string \<Rightarrow> string \<Rightarrow> string \<Rightarrow> xml \<Rightarrow> xml list" where
  "findall_attr name key val elem =
     filter (\<lambda>e. attr_get e key = Some val) (findall name elem)"

text \<open>
  \<open>int(elem.get(key, 0))\<close> converts the attribute, or the integer default \<open>0\<close> when it
  is missing; \<open>int(elem.get(key))\<close> raises \<open>TypeError\<close> on the \<open>None\<close> of a missing
  attribute.
\<close>

definition int_attr_default :: "xml \<Rightarrow> string \<Rightarrow> pyexc + int" where
  "int_attr_default elem key = (case attr_get elem key of None \<Rightarrow> Inr 0 | Some s \<Rightarrow> py_int s)"

definition int_attr :: "xml \<Rightarrow> string \<Rightarrow> pyexc + int" where
  "int_attr elem key = (case attr_get elem key of None \<Rightarrow> Inl TypeError | Some s \<Rightarrow> py_int s)"

text \<open>
  What the tools ask of the file system: \<open>os.path.exists(path)\<close>, and \<open>ET.parse(path)\<close>
  followed by \<open>getroot()\<close>, which gives the root element, raises \<open>ParseError\<close> with the
  parser's message on a file that is not well-formed XML, or raises something else
  (\<open>OSError\<close> on a file that cannot be read).
\<close>

record world =
  path_exists :: "string \<Rightarrow> bool"
  et_parse :: "string \<Rightarrow> pyexc + xml"

section \<open>The report locator\<close>

text \<open>
  \<open>find_jacoco_path\<close> builds three candidate paths and returns the first that exists;
  \<open>probe\<close> is its \<open>for\<close> loop, which also records the paths it has asked
  \<open>os.path.exists\<close> about, in order.
\<close>

definition jacoco_paths :: "string \<Rightarrow> string list" where
  "jacoco_paths project_path =
     [project_path @ ''/target/site/jacoco/jacoco.xml'',
      project_path @ ''/target/jacoco.xml'',
      project_path @ ''/build/jacoco/jacoco.xml'']"

definition not_found_msg :: string where
  "not_found_msg =
     ''JaCoCo report not found. Run '' @ [CHR 0x27] @ ''mvn clean test'' @ [CHR 0x27] @ '' first.''"

fun probe :: "world \<Rightarrow> string list \<Rightarrow> string list \<times> string option" where
  "probe w [] = ([], None)"
| "probe w (p # ps) =
     (if path_exists w p then ([p], Some p)
      else (case probe w ps of (asked, r) \<Rightarrow> (p # asked, r)))"

definition find_jacoco_path :: "world \<Rightarrow> string \<Rightarrow> string" where
  "find_jacoco_path w project_path =
     (case snd (probe w (jacoco_paths project_path)) of
        Some path \<Rightarrow> path
      | None \<Rightarrow> not_found_msg)"

section \<open>The coverage aggregator\<close>

text \<open>
  A value of the result dictionary is the integer default or a float. A tool answers
  with a dictionary: \<open>{"error": text}\<close> or its result. The text of an error is a plain
  string, or a prefix followed by \<open>str(e)\<close> of the exception caught.
\<close>

datatype pynum = PInt int | PFloat pyfloat

datatype error_text = Plain string | Formatted string pyexc

datatype 'a tool_dict = ErrorDict error_text | ResultDict 'a

record coverage_data =
  line_coverage :: pynum
  branch_coverage :: pynum
  method_coverage :: pynum
  instruction_coverage :: pynum

text \<open>\<open>round((covered / total) * 100, 2)\<close>\<close>

definition percentage :: "int \<Rightarrow> int \<Rightarrow> pyexc + pyfloat" where
  "percentage covered tot =
     (case int_truediv covered tot of
        Inl e \<Rightarrow> Inl e
      | Inr q \<Rightarrow> py_round (float_mul q (Finite False 100)) 2)"

text \<open>
  One of the four loops over \<open>root.findall(".//counter[@type=...]")\<close>: \<open>v\<close> is the
  current value of the key the loop assigns.
\<close>

fun counter_loop :: "xml list \<Rightarrow> pynum \<Rightarrow> pyexc + pynum" where
  "counter_loop [] v = Inr v"
| "counter_loop (counter # rest) v =
     (case int_attr_default counter ''covered'' of
        Inl e \<Rightarrow> Inl e
      | Inr covered \<Rightarrow>
          (case int_attr_default counter ''missed'' of
             Inl e \<Rightarrow> Inl e
           | Inr missed \<Rightarrow>
               (let tot = covered + missed
                in if tot > 0
                   then (case percentage covered tot of
                           Inl e \<Rightarrow> Inl e
                         | Inr p \<Rightarrow> counter_loop rest (PFloat p))
                   else counter_loop rest v)))"

definition counters_of :: "string \<Rightarrow> xml \<Rightarrow> xml list" where
  "counters_of kind rt = findall_attr ''counter'' ''type'' kind rt"

text \<open>The body of the \<open>try\<close> block, after the report has been parsed.\<close>

definition coverage_body :: "xml \<Rightarrow> pyexc + coverage_data" where
  "coverage_body rt =
     (case counter_loop (counters_of ''LINE'' rt) (PInt 0) of Inl e \<Rightarrow> Inl e | Inr l \<Rightarrow>
     (case counter_loop (counters_of ''BRANCH'' rt) (PInt 0) of Inl e \<Rightarrow> Inl e | Inr b \<Rightarrow>
     (case counter_loop (counters_of ''METHOD'' rt) (PInt 0) of Inl e \<Rightarrow> Inl e | Inr m \<Rightarrow>
     (case counter_loop (counters_of ''INSTRUCTION'' rt) (PInt 0) of Inl e \<Rightarrow> Inl e | Inr i \<Rightarrow>
        Inr \<lparr>line_coverage = l, branch_coverage = b,
             method_coverage = m, instruction_coverage = i\<rparr>))))"

text \<open>
  \<open>total_coverage\<close>: the sentinel test on the located path, then the \<open>try\<close> block with
  its two handlers. \<open>Inl\<close> at the top would be an exception that leaves the call.
\<close>

definition total_coverage :: "world \<Rightarrow> string \<Rightarrow> pyexc + coverage_data tool_dict" where
  "total_coverage w project_path =
     (let jacoco_path = find_jacoco_path w project_path
      in if str_contains ''not found'' jacoco_path
         then Inr (ErrorDict (Plain jacoco_path))
         else (case (case et_parse w jacoco_path of
                       Inl e \<Rightarrow> Inl e
                     | Inr rt \<Rightarrow> coverage_body rt) of
                 Inr coverage \<Rightarrow> Inr (ResultDict coverage)
               | Inl (ParseError msg) \<Rightarrow>
                   Inr (ErrorDict (Formatted ''Invalid JaCoCo XML: '' (ParseError msg)))
               | Inl e \<Rightarrow> Inr (ErrorDict (Formatted ''Coverage parsing failed: '' e))))"

section \<open>The uncovered-line extractor\<close>

record uncovered_line =
  line_number :: int
  instruction_count :: int
  branch_count :: int

text \<open>The result dictionary; \<open>file_key\<close> is its key \<open>"file"\<close>.\<close>

record missing_report =
  file_key :: string
  total_uncovered_lines :: nat
  uncovered_lines :: "uncovered_line list"

text \<open>The inner loop over \<open>sourcefile.findall(".//line")\<close>, appending to \<open>acc\<close>.\<close>

fun line_loop :: "xml list \<Rightarrow> uncovered_line list \<Rightarrow> pyexc + uncovered_line list" where
  "line_loop [] acc = Inr acc"
| "line_loop (line # rest) acc =
     (case int_attr_default line ''ci'' of
        Inl e \<Rightarrow> Inl e
      | Inr ci \<Rightarrow>
          (if ci = 0
           then (case int_attr line ''nr'' of Inl e \<Rightarrow> Inl e | Inr nr \<Rightarrow>
                (case int_attr_default line ''ci'' of Inl e \<Rightarrow> Inl e | Inr ic \<Rightarrow>
                (case int_attr_default line ''cb'' of Inl e \<Rightarrow> Inl e | Inr cb \<Rightarrow>
                   line_loop rest
                     (acc @ [\<lparr>line_number = nr, instruction_count = ic, branch_count = cb\<rparr>]))))
           else line_loop rest acc))"

text \<open>The test that selects a \<open>sourcefile\<close> entry.\<close>

definition name_attr :: "xml \<Rightarrow> string" where
  "name_attr sourcefile = (case attr_get sourcefile ''name'' of None \<Rightarrow> [] | Some n \<Rightarrow> n)"

definition sourcefile_matches :: "string \<Rightarrow> string \<Rightarrow> xml \<Rightarrow> bool" where
  "sourcefile_matches file_name file_path sourcefile =
     (str_contains file_name (name_attr sourcefile)
      \<or> str_contains file_path (name_attr sourcefile))"

text \<open>The outer loop over \<open>root.findall(".//sourcefile")\<close>.\<close>

fun sourcefile_loop ::
  "string \<Rightarrow> string \<Rightarrow> xml list \<Rightarrow> uncovered_line list \<Rightarrow> pyexc + uncovered_line list" where
  "sourcefile_loop file_name file_path [] acc = Inr acc"
| "sourcefile_loop file_name file_path (sourcefile # rest) acc =
     (if sourcefile_matches file_name file_path sourcefile
      then (case line_loop (findall ''line'' sourcefile) acc of
              Inl e \<Rightarrow> Inl e
            | Inr acc' \<Rightarrow> sourcefile_loop file_name file_path rest acc')
      else sourcefile_loop file_name file_path rest acc)"

definition class_file_name :: "string \<Rightarrow> string" where
  "class_file_name file_path = str_replace ''.java'' ''.class'' (basename file_path)"

definition missing_body :: "string \<Rightarrow> xml \<Rightarrow> pyexc + missing_report" where
  "missing_body file_path rt =
     (case sourcefile_loop (class_file_name file_path) file_path (findall ''sourcefile'' rt) [] of
        Inl e \<Rightarrow> Inl e
      | Inr lines \<Rightarrow>
          Inr \<lparr>file_key = file_path, total_uncovered_lines = length lines, uncovered_lines = lines\<rparr>)"

definition missing_coverage :: "world \<Rightarrow> string \<Rightarrow> string \<Rightarrow> pyexc + missing_report tool_dict" where
  "missing_coverage w file_path project_path =
     (let jacoco_path = find_jacoco_path w project_path
      in if str_contains ''not found'' jacoco_path
         then Inr (ErrorDict (Plain jacoco_path))
         else (case (case et_parse w jacoco_path of
                       Inl e \<Rightarrow> Inl e
                     | Inr rt \<Rightarrow> missing_body file_path rt) of
                 Inr report \<Rightarrow> Inr (ResultDict report)
               | Inl e \<Rightarrow> Inr (ErrorDict (Formatted ''Coverage analysis failed: '' e))))"

section \<open>The copy in \<open>final_project_se333_sidiqa/codebase/server.py\<close>\<close>

text \<open>
  The second source file defines \<open>find_jacoco_path\<close>, \<open>total_coverage\<close> and
  \<open>missing_coverage\<close> again. They are translated here from that file, with the suffix
  \<open>_codebase\<close>; each calls the \<open>find_jacoco_path\<close> of its own file.
\<close>

definition jacoco_paths_codebase :: "string \<Rightarrow> string list" where
  "jacoco_paths_codebase project_path =
     [project_path @ ''/target/site/jacoco/jacoco.xml'',
      project_path @ ''/target/jacoco.xml'',
      project_path @ ''/build/jacoco/jacoco.xml'']"

definition find_jacoco_path_codebase :: "world \<Rightarrow> string \<Rightarrow> string" where
  "find_jacoco_path_codebase w project_path =
     (case snd (probe w (jacoco_paths_codebase project_path)) of
        Some path \<Rightarrow> path
      | None \<Rightarrow>
          ''JaCoCo report not found. Run '' @ [CHR 0x27] @ ''mvn clean test'' @ [CHR 0x27]
            @ '' first.'')"

definition coverage_body_codebase :: "xml \<Rightarrow> pyexc + coverage_data" where
  "coverage_body_codebase rt =
     (case counter_loop (findall_attr ''counter'' ''type'' ''LINE'' rt) (PInt 0) of
        Inl e \<Rightarrow> Inl e | Inr l \<Rightarrow>
     (case counter_loop (findall_attr ''counter'' ''type'' ''BRANCH'' rt) (PInt 0) of
        Inl e \<Rightarrow> Inl e | Inr b \<Rightarrow>
     (case counter_loop (findall_attr ''counter'' ''type'' ''METHOD'' rt) (PInt 0) of
        Inl e \<Rightarrow> Inl e | Inr m \<Rightarrow>
     (case counter_loop (findall_attr ''counter'' ''type'' ''INSTRUCTION'' rt) (PInt 0) of
        Inl e \<Rightarrow> Inl e | Inr i \<Rightarrow>
        Inr \<lparr>line_coverage = l, branch_coverage = b,
             method_coverage = m, instruction_coverage = i\<rparr>))))"

definition total_coverage_codebase :: "world \<Rightarrow> string \<Rightarrow> pyexc + coverage_data tool_dict" where
  "total_coverage_codebase w project_path =
     (let jacoco_path = find_jacoco_path_codebase w project_path
      in if str_contains ''not found'' jacoco_path
         then Inr (ErrorDict (Plain jacoco_path))
         else (case (case et_parse w jacoco_path of
                       Inl e \<Rightarrow> Inl e
                     | Inr rt \<Rightarrow> coverage_body_codebase rt) of
                 Inr coverage \<Rightarrow> Inr (ResultDict coverage)
               | Inl (ParseError msg) \<Rightarrow>
                   Inr (ErrorDict (Formatted ''Invalid JaCoCo XML: '' (ParseError msg)))
               | Inl e \<Rightarrow> Inr (ErrorDict (Formatted ''Coverage parsing failed: '' e))))"

definition missing_body_codebase :: "string \<Rightarrow> xml \<Rightarrow> pyexc + missing_report" where
  "missing_body_codebase file_path rt =
     (case sourcefile_loop (str_replace ''.java'' ''.class'' (basename file_path)) file_path
             (findall ''sourcefile'' rt) [] of
        Inl e \<Rightarrow> Inl e
      | Inr lines \<Rightarrow>
          Inr \<lparr>file_key = file_path, total_uncovered_lines = length lines, uncovered_lines = lines\<rparr>)"

definition missing_coverage_codebase ::
  "world \<Rightarrow> string \<Rightarrow> string \<Rightarrow> pyexc + missing_report tool_dict" where
  "missing_coverage_codebase w file_path project_path =
     (let jacoco_path = find_jacoco_path_codebase w project_path
      in if str_contains ''not found'' jacoco_path
         then Inr (ErrorDict (Plain jacoco_path))
         else (case (case et_parse w jacoco_path of
                       Inl e \<Rightarrow> Inl e
                     | Inr rt \<Rightarrow> missing_body_codebase file_path rt) of
                 Inr report \<Rightarrow> Inr (ResultDict report)
               | Inl e \<Rightarrow> Inr (ErrorDict (Formatted ''Coverage analysis failed: '' e))))"

section \<open>Notions for stating the properties\<close>

text \<open>
  The path that a tool hands to \<open>ET.parse\<close>: the located path, unless the sentinel test
  \<open>"not found" in jacoco_path\<close> stops the tool before.
\<close>

definition report_path :: "world \<Rightarrow> string \<Rightarrow> string option" where
  "report_path w project_path =
     (let jacoco_path = find_jacoco_path w project_path
      in if str_contains ''not found'' jacoco_path then None else Some jacoco_path)"

text \<open>
  What the loop reads from a counter node: \<open>covered\<close> and \<open>missed\<close> when both convert.
  A counter is well formed when both are non-negative integers (a missing attribute
  counts as \<open>0\<close>); its total is positive when \<open>covered + missed > 0\<close>; its percentage is
  what \<open>round((covered / total) * 100, 2)\<close> gives for it.
\<close>

definition counter_values :: "xml \<Rightarrow> (int \<times> int) option" where
  "counter_values c =
     (case int_attr_default c ''covered'' of
        Inl e \<Rightarrow> None
      | Inr covered \<Rightarrow>
          (case int_attr_default c ''missed'' of
             Inl e \<Rightarrow> None
           | Inr missed \<Rightarrow> Some (covered, missed)))"

definition well_formed_counter :: "xml \<Rightarrow> bool" where
  "well_formed_counter c =
     (case counter_values c of None \<Rightarrow> False
      | Some (covered, missed) \<Rightarrow> 0 \<le> covered \<and> 0 \<le> missed)"

definition positive_total :: "xml \<Rightarrow> bool" where
  "positive_total c =
     (case counter_values c of None \<Rightarrow> False
      | Some (covered, missed) \<Rightarrow> 0 < covered + missed)"

definition counter_percentage :: "xml \<Rightarrow> pyfloat option" where
  "counter_percentage c =
     (case counter_values c of None \<Rightarrow> None
      | Some (covered, missed) \<Rightarrow>
          (case percentage covered (covered + missed) of
             Inl e \<Rightarrow> None
           | Inr p \<Rightarrow> Some p))"

definition counter_kinds :: "string list" where
  "counter_kinds = [''LINE'', ''BRANCH'', ''METHOD'', ''INSTRUCTION'']"

definition well_formed_report :: "xml \<Rightarrow> bool" where
  "well_formed_report rt =
     list_all (\<lambda>kind. list_all well_formed_counter (counters_of kind rt)) counter_kinds"

text \<open>The value that the result dictionary holds under the key of a counter kind.\<close>

definition coverage_value :: "string \<Rightarrow> coverage_data \<Rightarrow> pynum" where
  "coverage_value kind d =
     (if kind = ''LINE'' then line_coverage d
      else if kind = ''BRANCH'' then branch_coverage d
      else if kind = ''METHOD'' then method_coverage d
      else instruction_coverage d)"

fun is_float :: "pynum \<Rightarrow> bool" where
  "is_float (PFloat x) = True"
| "is_float (PInt n) = False"

text \<open>
  The \<open>sourcefile\<close> entries that \<open>missing_coverage\<close> selects, in document order. A line
  is readable when the conversions the loop performs on it succeed: \<open>ci\<close> always, \<open>nr\<close>
  and \<open>cb\<close> when \<open>ci\<close> is \<open>0\<close>. \<open>entry_of line e\<close> says that the entry \<open>e\<close> reports
  the attributes of \<open>line\<close>.
\<close>

definition selected_sourcefiles :: "string \<Rightarrow> xml \<Rightarrow> xml list" where
  "selected_sourcefiles file_path rt =
     filter (sourcefile_matches (class_file_name file_path) file_path) (findall ''sourcefile'' rt)"

definition ci_zero :: "xml \<Rightarrow> bool" where
  "ci_zero line = (int_attr_default line ''ci'' = Inr 0)"

definition readable_line :: "xml \<Rightarrow> bool" where
  "readable_line line =
     (case int_attr_default line ''ci'' of
        Inl e \<Rightarrow> False
      | Inr ci \<Rightarrow>
          (if ci = 0
           then (case int_attr line ''nr'' of
                   Inl e \<Rightarrow> False
                 | Inr nr \<Rightarrow> (case int_attr_default line ''cb'' of
                               Inl e \<Rightarrow> False | Inr cb \<Rightarrow> True))
           else True))"

definition entry_of :: "xml \<Rightarrow> uncovered_line \<Rightarrow> bool" where
  "entry_of line e =
     (int_attr line ''nr'' = Inr (line_number e)
      \<and> int_attr_default line ''ci'' = Inr (instruction_count e)
      \<and> int_attr_default line ''cb'' = Inr (branch_count e))"


section \<open>Example reports\<close>

text \<open>
  A small report in the shape JaCoCo writes: counters at the line, at the package and
  at the report level, and a world in which it is found at \<open>proj/target/jacoco.xml\<close>.
\<close>

definition example_report :: xml where
  "example_report =
     Element ''report'' [(''name'', ''demo'')]
       [Element ''package'' [(''name'', ''demo'')]
          [Element ''sourcefile'' [(''name'', ''Foo.java'')]
             [Element ''line'' [(''nr'', ''3''), (''mi'', ''2''), (''ci'', ''0''),
                               (''mb'', ''0''), (''cb'', ''0'')] [],
              Element ''line'' [(''nr'', ''4''), (''mi'', ''0''), (''ci'', ''3''),
                               (''mb'', ''1''), (''cb'', ''1'')] [],
              Element ''counter'' [(''type'', ''LINE''), (''missed'', ''1''),
                                  (''covered'', ''1'')] []],
           Element ''counter'' [(''type'', ''LINE''), (''missed'', ''1''),
                               (''covered'', ''1'')] []],
        Element ''counter'' [(''type'', ''METHOD''), (''missed'', ''0''), (''covered'', ''0'')] [],
        Element ''counter'' [(''type'', ''COMPLEXITY''), (''missed'', ''x''),
                            (''covered'', ''y'')] [],
        Element ''counter'' [(''type'', ''INSTRUCTION''), (''covered'', ''1'')] [],
        Element ''counter'' [(''type'', ''LINE''), (''missed'', ''20''), (''covered'', ''80'')] []]"

definition example_world :: world where
  "example_world =
     \<lparr>path_exists = (\<lambda>p. p = ''proj/target/jacoco.xml'' \<or> p = ''proj/build/jacoco/jacoco.xml''),
      et_parse = (\<lambda>p. if p = ''proj/target/jacoco.xml'' then Inr example_report
                       else Inl (OSError ''No such file or directory''))\<rparr>"

text \<open>
  A world whose report is not well-formed XML, and a report in which a \<open>LINE\<close> counter
  with \<open>covered="0"\<close> and \<open>missed="0"\<close> follows one with a positive total.
\<close>

definition broken_world :: world where
  "broken_world =
     \<lparr>path_exists = (\<lambda>p. p = ''proj/target/jacoco.xml''),
      et_parse = (\<lambda>p. Inl (ParseError ''no element found: line 1, column 8''))\<rparr>"

definition stale_report :: xml where
  "stale_report =
     Element ''report'' [(''name'', ''demo'')]
       [Element ''counter'' [(''type'', ''LINE''), (''missed'', ''20''), (''covered'', ''80'')] [],
        Element ''counter'' [(''type'', ''LINE''), (''missed'', ''0''), (''covered'', ''0'')] []]"

definition stale_world :: world where
  "stale_world =
     \<lparr>path_exists = (\<lambda>p. p = ''proj/target/site/jacoco/jacoco.xml''),
      et_parse = (\<lambda>p. Inr stale_report)\<rparr>"

text \<open>
  A report whose \<open>LINE\<close> counter at root scope is followed, later in the document and
  three levels down, by another \<open>LINE\<close> counter; it is found at the third candidate
  path.
\<close>

definition nested_report :: xml where
  "nested_report =
     Element ''report'' [(''name'', ''demo'')]
       [Element ''counter'' [(''type'', ''LINE''), (''missed'', ''20''), (''covered'', ''80'')] [],
        Element ''package'' [(''name'', ''demo'')]
          [Element ''class'' [(''name'', ''demo/Foo'')]
             [Element ''method'' [(''name'', ''run'')]
                [Element ''counter'' [(''type'', ''LINE''), (''missed'', ''2''),
                                     (''covered'', ''1'')] []]]]]"

definition nested_world :: world where
  "nested_world =
     \<lparr>path_exists = (\<lambda>p. p = ''proj/build/jacoco/jacoco.xml''),
      et_parse = (\<lambda>p. if p = ''proj/build/jacoco/jacoco.xml'' then Inr nested_report
                       else Inl (OSError ''No such file or directory''))\<rparr>"

text \<open>
  A report with two source files of the same name in different packages, each with an
  uncovered line, and one of another name.
\<close>

definition packages_report :: xml where
  "packages_report =
     Element ''report'' [(''name'', ''demo'')]
       [Element ''package'' [(''name'', ''a'')]
          [Element ''sourcefile'' [(''name'', ''Foo.java'')]
             [Element ''line'' [(''nr'', ''7''), (''mi'', ''4''), (''ci'', ''0''),
                               (''mb'', ''2''), (''cb'', ''0'')] [],
              Element ''line'' [(''nr'', ''8''), (''mi'', ''0''), (''ci'', ''3''),
                               (''mb'', ''1''), (''cb'', ''1'')] []]],
        Element ''package'' [(''name'', ''b'')]
          [Element ''sourcefile'' [(''name'', ''Foo.java'')]
             [Element ''line'' [(''nr'', ''12''), (''mi'', ''1''), (''ci'', ''0''),
                               (''mb'', ''0''), (''cb'', ''0'')] []],
           Element ''sourcefile'' [(''name'', ''Bar.java'')]
             [Element ''line'' [(''nr'', ''5''), (''mi'', ''1''), (''ci'', ''0''),
                               (''mb'', ''0''), (''cb'', ''0'')] []]]]"

definition packages_world :: world where
  "packages_world =
     \<lparr>path_exists = (\<lambda>p. p = ''proj/target/site/jacoco/jacoco.xml''),
      et_parse = (\<lambda>p. Inr packages_report)\<rparr>"

section \<open>The locator returns the first existing candidate\<close>

lemma probe_three:
  "probe w [p1, p2, p3] =
     (if path_exists w p1 then ([p1], Some p1)
      else if path_exists w p2 then ([p1, p2], Some p2)
      else if path_exists w p3 then ([p1, p2, p3], Some p3)
      else ([p1, p2, p3], None))"
  by simp

text \<open>
  C4. For every project path, \<open>find_jacoco_path\<close> asks \<open>os.path.exists\<close> about the
  three candidates \<open>target/site/jacoco/jacoco.xml\<close>, \<open>target/jacoco.xml\<close>,
  \<open>build/jacoco/jacoco.xml\<close> under the project path, in this order, stops at the first
  that exists and returns it; when none exists it returns the sentinel string, which
  contains the hint to run \<open>mvn clean test\<close>. It returns a string in every case.
\<close>

theorem find_jacoco_path_first_existing:
  fixes w :: world and project_path :: string
  defines "p1 \<equiv> project_path @ ''/target/site/jacoco/jacoco.xml''"
      and "p2 \<equiv> project_path @ ''/target/jacoco.xml''"
      and "p3 \<equiv> project_path @ ''/build/jacoco/jacoco.xml''"
  shows "jacoco_paths project_path = [p1, p2, p3]
    \<and> find_jacoco_path w project_path =
        (if path_exists w p1 then p1 else if path_exists w p2 then p2
         else if path_exists w p3 then p3 else not_found_msg)
    \<and> fst (probe w (jacoco_paths project_path)) =
        (if path_exists w p1 then [p1] else if path_exists w p2 then [p1, p2] else [p1, p2, p3])
    \<and> str_contains (''Run '' @ [CHR 0x27] @ ''mvn clean test'' @ [CHR 0x27] @ '' first.'')
          not_found_msg"
proof -
  have paths: "jacoco_paths project_path = [p1, p2, p3]"
    by (simp add: jacoco_paths_def p1_def p2_def p3_def)
  have hint: "str_contains (''Run '' @ [CHR 0x27] @ ''mvn clean test'' @ [CHR 0x27] @ '' first.'')
      not_found_msg"
    by (simp add: not_found_msg_def)
  show ?thesis
    unfolding find_jacoco_path_def paths probe_three using hint by simp
qed

theorem find_jacoco_path_first_existing_witness:
  "find_jacoco_path example_world ''proj'' = ''proj/target/jacoco.xml''
   \<and> fst (probe example_world (jacoco_paths ''proj''))
       = [''proj/target/site/jacoco/jacoco.xml'', ''proj/target/jacoco.xml'']
   \<and> find_jacoco_path example_world ''other'' = not_found_msg"
  using find_jacoco_path_first_existing [of "''proj''" example_world]
    find_jacoco_path_first_existing [of "''other''" example_world]
  by (simp add: example_world_def)

section \<open>Evaluating the tools on the example\<close>

lemma example_total:
  "total_coverage example_world ''proj'' =
     Inr (ResultDict \<lparr>line_coverage = PFloat (Finite False 80), branch_coverage = PInt 0,
            method_coverage = PInt 0, instruction_coverage = PFloat (Finite False 100)\<rparr>)"
  by code_simp

lemma example_missing:
  "missing_coverage example_world ''Foo.java'' ''proj'' =
     Inr (ResultDict \<lparr>file_key = ''Foo.java'', total_uncovered_lines = 1,
            uncovered_lines =
              [\<lparr>line_number = 3, instruction_count = 0, branch_count = 0\<rparr>]\<rparr>)"
  by code_simp

section \<open>The \<open>divide\<close> tool\<close>

text \<open>
  C10. For every pair of floats \<open>a\<close> and \<open>b\<close>, \<open>divide\<close> returns a float and raises
  nothing. \<open>b == 0\<close> holds exactly for the two zeros \<open>0.0\<close> and \<open>-0.0\<close>; there the
  result is positive infinity, whatever \<open>a\<close> is. Otherwise the result is \<open>a / b\<close>, the
  float division, which raises only on a zero divisor.
\<close>

theorem divide_never_raises:
  "(\<exists>r. divide_tool a b = Inr r)
   \<and> (float_is_zero b \<longleftrightarrow> b = Finite False 0 \<or> b = Finite True 0)
   \<and> (float_is_zero b \<longrightarrow> divide_tool a b = Inr (Infinity False))
   \<and> (\<not> float_is_zero b \<longrightarrow>
        divide_tool a b = float_truediv a b \<and> float_truediv a b = Inr (ieee_div a b))"
  by (cases b) (auto simp: divide_tool_def float_truediv_def)

theorem divide_never_raises_witness:
  "divide_tool (Finite True 1) (Finite True 0) = Inr (Infinity False)
   \<and> divide_tool (Finite True 1) (Finite False 0) = Inr (Infinity False)
   \<and> divide_tool NaN (Finite False 0) = Inr (Infinity False)
   \<and> divide_tool (Finite True 1) (Finite False 4) = float_truediv (Finite True 1) (Finite False 4)
   \<and> float_truediv (Finite True 1) (Finite False 4) = Inr (Finite True (1 / 4))"
proof -
  have q: "ieee_div (Finite True 1) (Finite False 4) = Finite True (1 / 4)"
    by code_simp
  show ?thesis
    using divide_never_raises [of "Finite True 1" "Finite True 0"]
      divide_never_raises [of "Finite True 1" "Finite False 0"]
      divide_never_raises [of NaN "Finite False 0"]
      divide_never_raises [of "Finite True 1" "Finite False 4"] q
    by simp
qed

section \<open>The two copies of the coverage tools\<close>

text \<open>
  C9. The functions \<open>find_jacoco_path\<close>, \<open>total_coverage\<close> and \<open>missing_coverage\<close> of
  \<open>server.py\<close> return, on every input and in every state of the file system, what the
  functions of the same names in \<open>final_project_se333_sidiqa/codebase/server.py\<close>
  return.
\<close>

theorem copies_agree:
  "find_jacoco_path_codebase w project_path = find_jacoco_path w project_path
   \<and> total_coverage_codebase w project_path = total_coverage w project_path
   \<and> missing_coverage_codebase w file_path project_path
       = missing_coverage w file_path project_path"
proof -
  have f: "find_jacoco_path_codebase w p = find_jacoco_path w p" for p
    by (simp add: find_jacoco_path_codebase_def find_jacoco_path_def jacoco_paths_codebase_def
        jacoco_paths_def not_found_msg_def)
  have c: "coverage_body_codebase rt = coverage_body rt" for rt
    unfolding coverage_body_codebase_def coverage_body_def counters_of_def by (rule refl)
  have m: "missing_body_codebase fp rt = missing_body fp rt" for fp rt
    unfolding missing_body_codebase_def missing_body_def class_file_name_def by (rule refl)
  show ?thesis
    unfolding total_coverage_codebase_def total_coverage_def
      missing_coverage_codebase_def missing_coverage_def f c m by simp
qed

theorem copies_agree_witness:
  "find_jacoco_path_codebase example_world ''proj'' = ''proj/target/jacoco.xml''
   \<and> total_coverage_codebase example_world ''proj'' =
       Inr (ResultDict \<lparr>line_coverage = PFloat (Finite False 80), branch_coverage = PInt 0,
              method_coverage = PInt 0, instruction_coverage = PFloat (Finite False 100)\<rparr>)
   \<and> missing_coverage_codebase example_world ''Foo.java'' ''proj'' =
       Inr (ResultDict \<lparr>file_key = ''Foo.java'', total_uncovered_lines = 1,
              uncovered_lines =
                [\<lparr>line_number = 3, instruction_count = 0, branch_count = 0\<rparr>]\<rparr>)"
proof -
  have p: "find_jacoco_path example_world ''proj'' = ''proj/target/jacoco.xml''"
    by code_simp
  show ?thesis
    using copies_agree [of example_world "''proj''" "''Foo.java''"] p example_total
      example_missing
    by simp
qed

section \<open>Rounding to binary64 stays in range\<close>

lemma pow2_powi: "pow2 k = 2 powi k"
  by (simp add: pow2_def power_int_def field_simps)

lemma pow2_pos: "0 < pow2 k"
  by (simp add: pow2_powi)

lemma pow2_mono: "a \<le> b \<Longrightarrow> pow2 a \<le> pow2 b"
  by (simp add: pow2_powi power_int_increasing)

lemma pow2_less_imp: "pow2 a < pow2 b \<Longrightarrow> a < b"
  using pow2_mono [of b a] by (cases "a < b") auto

lemma pow2_diff: "pow2 (a - b) = pow2 a / pow2 b"
  by (simp add: pow2_powi power_int_diff)

lemma round_half_even_le: "of_int (round_half_even x) \<le> x + 1 / 2"
  unfolding round_half_even_def Let_def
  by (auto simp: not_less) linarith+

lemma round_half_even_nonneg: "0 \<le> x \<Longrightarrow> 0 \<le> round_half_even x"
  unfolding round_half_even_def Let_def by auto

lemma ilog2_le:
  assumes "0 < q" "q < pow2 (K + 1)"
  shows "ilog2 q \<le> K"
proof -
  obtain n d where nd: "quotient_of q = (n, d)" by (cases "quotient_of q")
  then have d: "0 < d" and q: "q = of_int n / of_int d"
    by (auto dest: quotient_of_denom_pos quotient_of_div)
  from assms(1) d q have n: "0 < n" by (simp add: zero_less_divide_iff)
  define k where "k = bitlen n - bitlen d"
  have il: "ilog2 q = (if pow2 k \<le> q then k else k - 1)"
    by (simp add: ilog2_def nd k_def Let_def)
  show ?thesis
  proof (cases "pow2 k \<le> q")
    case True
    then have "pow2 k < pow2 (K + 1)" using assms(2) by simp
    then have "k < K + 1" by (rule pow2_less_imp)
    then show ?thesis using il True by simp
  next
    case False
    have bn: "(2::int) ^ nat (bitlen n - 1) \<le> n" using bitlen_bounds [OF n] by simp
    have bd: "d < (2::int) ^ nat (bitlen d)" using bitlen_bounds [OF d] by simp
    have n1: "1 \<le> bitlen n" using n by (simp add: bitlen_alt_def)
    have d1: "0 \<le> bitlen d" by (rule bitlen_nonneg)
    have pn: "pow2 (bitlen n - 1) \<le> of_int n"
      using bn n1 by (simp add: pow2_def)
    have pd: "of_int d < pow2 (bitlen d)"
      using bd d1 by (simp add: pow2_def)
    have "pow2 (k - 1) = pow2 (bitlen n - 1) / pow2 (bitlen d)"
      using pow2_diff [of "bitlen n - 1" "bitlen d"] by (simp add: k_def algebra_simps)
    also have "\<dots> \<le> of_int n / pow2 (bitlen d)"
      using pn pow2_pos [of "bitlen d"] by (simp add: divide_right_mono)
    also have "\<dots> < of_int n / of_int d"
      using pd d n by (simp add: divide_strict_left_mono pow2_pos)
    finally have "pow2 (k - 1) < q" by (simp add: q)
    then have "pow2 (k - 1) < pow2 (K + 1)" using assms(2) by simp
    then have "k - 1 < K + 1" by (rule pow2_less_imp)
    then show ?thesis using il False by simp
  qed
qed


lemma binary64_round_nonneg: "0 \<le> binary64_round q"
proof (cases "q \<le> 0")
  case True
  then show ?thesis by (simp add: binary64_round_def)
next
  case False
  define e where "e = max (- 1074) (ilog2 q - 52)"
  have "0 \<le> q / pow2 e" using False pow2_pos [of e] by simp
  then have "0 \<le> round_half_even (q / pow2 e)" by (rule round_half_even_nonneg)
  then have "0 \<le> of_int (round_half_even (q / pow2 e)) * pow2 e"
    using pow2_pos [of e] by simp
  then show ?thesis using False by (simp add: binary64_round_def e_def Let_def)
qed

lemma binary64_round_le:
  assumes "0 \<le> q" "q < pow2 54"
  shows "binary64_round q \<le> q + 1"
proof (cases "q \<le> 0")
  case True
  then show ?thesis using assms by (simp add: binary64_round_def)
next
  case False
  then have pos: "0 < q" by simp
  define e where "e = max (- 1074) (ilog2 q - 52)"
  have "ilog2 q \<le> 53" using ilog2_le [of q 53] pos assms(2) by simp
  then have "e \<le> 1" by (simp add: e_def)
  then have "pow2 e \<le> pow2 1" by (rule pow2_mono)
  then have e2: "pow2 e \<le> 2" by (simp add: pow2_def)
  have "of_int (round_half_even (q / pow2 e)) * pow2 e \<le> (q / pow2 e + 1 / 2) * pow2 e"
    using round_half_even_le [of "q / pow2 e"] pow2_pos [of e]
    by (simp add: mult_right_mono)
  also have "\<dots> = q + pow2 e / 2"
    using pow2_pos [of e] by (simp add: field_simps)
  also have "\<dots> \<le> q + 1" using e2 by simp
  finally show ?thesis using False by (simp add: binary64_round_def e_def Let_def)
qed

lemma to_binary64_small:
  assumes "0 \<le> q" "q \<le> 1000"
  shows "to_binary64 s q = Finite s (binary64_round q)" and "binary64_round q \<le> q + 1"
proof -
  have big: "(1001::rat) < pow2 54" "(1001::rat) < pow2 1024" by (simp_all add: pow2_def)
  show le: "binary64_round q \<le> q + 1"
    using binary64_round_le [of q] assms big by simp
  then have "binary64_round q < pow2 1024" using assms big by linarith
  then show "to_binary64 s q = Finite s (binary64_round q)"
    by (simp add: to_binary64_def Let_def)
qed

lemma percentage_returns:
  assumes "0 \<le> covered" "0 \<le> missed" "0 < covered + missed"
  shows "\<exists>p. percentage covered (covered + missed) = Inr p"
proof -
  define t where "t = covered + missed"
  define q1 :: rat where "q1 = \<bar>of_int covered / of_int t\<bar>"
  define r1 where "r1 = binary64_round q1"
  define r2 where "r2 = binary64_round (r1 * 100)"
  define q3 :: rat where "q3 = of_int (round_half_even (r2 * 100)) / 100"
  have t: "0 < t" "covered \<le> t" using assms by (simp_all add: t_def)
  have q1: "0 \<le> q1" "q1 \<le> 1"
    using t assms(1) by (simp_all add: q1_def)
  have s1: "to_binary64 s q1 = Finite s r1" for s
    using to_binary64_small(1) [of q1 s] q1 by (simp add: r1_def)
  have r1: "0 \<le> r1" "r1 \<le> 2"
    using to_binary64_small(2) [of q1] q1 binary64_round_nonneg [of q1] by (simp_all add: r1_def)
  have s2: "to_binary64 s (r1 * 100) = Finite s r2" for s
    using to_binary64_small(1) [of "r1 * 100" s] r1 by (simp add: r2_def)
  have r2: "0 \<le> r2" "r2 \<le> 201"
    using to_binary64_small(2) [of "r1 * 100"] r1 binary64_round_nonneg [of "r1 * 100"]
    by (simp_all add: r2_def)
  have "0 \<le> round_half_even (r2 * 100)" using r2 by (simp add: round_half_even_nonneg)
  moreover have "of_int (round_half_even (r2 * 100)) \<le> r2 * 100 + 1 / 2"
    by (rule round_half_even_le)
  ultimately have q3: "0 \<le> q3" "q3 \<le> 1000" using r2 by (simp_all add: q3_def)
  have s3: "to_binary64 s q3 = Finite s (binary64_round q3)" for s
    using to_binary64_small(1) [of q3 s] q3 by simp
  have "int_truediv covered t =
      (case to_binary64 ((covered < 0) \<noteq> (t < 0)) q1 of
         Finite s m \<Rightarrow> Inr (Finite s m) | _ \<Rightarrow> Inl OverflowError)"
    using t by (simp add: int_truediv_def q1_def)
  then have "int_truediv covered t = Inr (Finite ((covered < 0) \<noteq> (t < 0)) r1)"
    by (simp add: s1)
  then show ?thesis
    unfolding percentage_def t_def [symmetric]
    by (simp add: s2 s3 [unfolded q3_def])
qed

section \<open>The counter loop keeps the last positive counter\<close>

lemma counter_loop_step:
  "counter_values c = Some (a, b) \<Longrightarrow>
   counter_loop (c # rest) v =
     (if 0 < a + b
      then (case percentage a (a + b) of Inl e \<Rightarrow> Inl e | Inr p \<Rightarrow> counter_loop rest (PFloat p))
      else counter_loop rest v)"
  by (auto simp: counter_values_def Let_def split: sum.splits)

lemma well_formed_positive:
  assumes "well_formed_counter c" "positive_total c"
  shows "\<exists>a b p. counter_values c = Some (a, b) \<and> 0 < a + b
    \<and> percentage a (a + b) = Inr p \<and> counter_percentage c = Some p"
proof -
  from assms obtain a b where ab: "counter_values c = Some (a, b)" "0 \<le> a" "0 \<le> b" "0 < a + b"
    by (auto simp: well_formed_counter_def positive_total_def split: option.splits)
  from percentage_returns [OF ab(2,3,4)] obtain p where "percentage a (a + b) = Inr p" ..
  with ab show ?thesis by (simp add: counter_percentage_def)
qed

lemma counter_loop_well_formed:
  assumes "list_all well_formed_counter cs"
  shows "\<exists>r. counter_loop cs v = Inr r
     \<and> (case filter positive_total cs of
          [] \<Rightarrow> r = v
        | x # xs \<Rightarrow> map_option PFloat (counter_percentage (last (x # xs))) = Some r)"
  using assms
proof (induction cs arbitrary: v)
  case Nil
  then show ?case by simp
next
  case (Cons c cs)
  then have wf: "well_formed_counter c" and wfs: "list_all well_formed_counter cs" by simp_all
  show ?case
  proof (cases "positive_total c")
    case True
    from well_formed_positive [OF wf True] obtain a b p where
      ab: "counter_values c = Some (a, b)" "0 < a + b" "percentage a (a + b) = Inr p"
        "counter_percentage c = Some p" by blast
    from Cons.IH [OF wfs, of "PFloat p"] obtain r where
      r: "counter_loop cs (PFloat p) = Inr r"
        "case filter positive_total cs of [] \<Rightarrow> r = PFloat p
         | x # xs \<Rightarrow> map_option PFloat (counter_percentage (last (x # xs))) = Some r" by blast
    have "counter_loop (c # cs) v = Inr r"
      using counter_loop_step [OF ab(1)] ab r by simp
    moreover have "map_option PFloat (counter_percentage (last (c # filter positive_total cs))) = Some r"
      using r(2) ab(4) by (cases "filter positive_total cs") auto
    ultimately show ?thesis using True by simp
  next
    case False
    from wf obtain a b where ab: "counter_values c = Some (a, b)"
      by (auto simp: well_formed_counter_def split: option.splits)
    with False have "\<not> 0 < a + b" by (simp add: positive_total_def)
    then have "counter_loop (c # cs) v = counter_loop cs v"
      using counter_loop_step [OF ab] by simp
    then show ?thesis using Cons.IH [OF wfs, of v] False by simp
  qed
qed

lemma filter_last_positive:
  assumes "cs = pre @ c # post" "positive_total c" "\<forall>x\<in>set post. \<not> positive_total x"
  shows "filter positive_total cs = filter positive_total pre @ [c]"
  using assms by (simp add: filter_empty_conv)

lemma counter_loop_last:
  assumes "list_all well_formed_counter cs" "cs = pre @ c # post" "positive_total c"
    "\<forall>x\<in>set post. \<not> positive_total x"
  shows "\<exists>p. counter_percentage c = Some p \<and> counter_loop cs v = Inr (PFloat p)"
proof -
  from counter_loop_well_formed [OF assms(1), of v] obtain r where
    r: "counter_loop cs v = Inr r"
      "case filter positive_total cs of [] \<Rightarrow> r = v
       | x # xs \<Rightarrow> map_option PFloat (counter_percentage (last (x # xs))) = Some r" by blast
  have f: "filter positive_total cs = filter positive_total pre @ [c]"
    by (rule filter_last_positive [OF assms(2,3,4)])
  from r(2) have "map_option PFloat (counter_percentage c) = Some r"
    unfolding f by (cases "filter positive_total pre") simp_all
  with r(1) show ?thesis by auto
qed

lemma counter_loop_none:
  assumes "list_all well_formed_counter cs" "\<forall>x\<in>set cs. \<not> positive_total x"
  shows "counter_loop cs v = Inr v"
proof -
  from counter_loop_well_formed [OF assms(1), of v] obtain r where
    r: "counter_loop cs v = Inr r"
      "case filter positive_total cs of [] \<Rightarrow> r = v
       | x # xs \<Rightarrow> map_option PFloat (counter_percentage (last (x # xs))) = Some r" by blast
  have "filter positive_total cs = []" using assms(2) by (simp add: filter_empty_conv)
  with r show ?thesis by simp
qed

lemma well_formed_report_kind:
  "well_formed_report rt \<Longrightarrow> kind \<in> set counter_kinds \<Longrightarrow>
   list_all well_formed_counter (counters_of kind rt)"
  by (simp add: well_formed_report_def list_all_iff)

lemma coverage_body_well_formed:
  assumes "well_formed_report rt"
  shows "\<exists>d. coverage_body rt = Inr d
     \<and> (\<forall>kind\<in>set counter_kinds.
          counter_loop (counters_of kind rt) (PInt 0) = Inr (coverage_value kind d))"
proof -
  have ex: "\<exists>r. counter_loop (counters_of kind rt) (PInt 0) = Inr r"
    if "kind \<in> set counter_kinds" for kind
    using counter_loop_well_formed [OF well_formed_report_kind [OF assms that], of "PInt 0"]
    by blast
  obtain l where l: "counter_loop (counters_of ''LINE'' rt) (PInt 0) = Inr l"
    using ex [of "''LINE''"] by (auto simp: counter_kinds_def)
  obtain b where b: "counter_loop (counters_of ''BRANCH'' rt) (PInt 0) = Inr b"
    using ex [of "''BRANCH''"] by (auto simp: counter_kinds_def)
  obtain m where m: "counter_loop (counters_of ''METHOD'' rt) (PInt 0) = Inr m"
    using ex [of "''METHOD''"] by (auto simp: counter_kinds_def)
  obtain i where i: "counter_loop (counters_of ''INSTRUCTION'' rt) (PInt 0) = Inr i"
    using ex [of "''INSTRUCTION''"] by (auto simp: counter_kinds_def)
  have "coverage_body rt = Inr \<lparr>line_coverage = l, branch_coverage = b,
      method_coverage = m, instruction_coverage = i\<rparr>"
    by (simp add: coverage_body_def l b m i)
  then show ?thesis
    using l b m i by (simp add: counter_kinds_def coverage_value_def)
qed

lemma total_coverage_read:
  assumes "report_path w project_path = Some path" "et_parse w path = Inr rt"
    "coverage_body rt = Inr d"
  shows "total_coverage w project_path = Inr (ResultDict d)"
  using assms by (auto simp: total_coverage_def report_path_def Let_def split: if_splits)

text \<open>
  C1. For every well-formed report that \<open>total_coverage\<close> reads, and for each of the
  four counter kinds, the counters searched are the \<open>counter\<close> elements with that
  \<open>type\<close> anywhere below the root, in document order: the children of the root, each
  followed by everything below it, at every depth. The value returned for the kind is
  the percentage computed from the last of these counters whose total
  \<open>covered + missed\<close> is positive: the counter \<open>c\<close> after which only counters of
  non-positive total follow.
\<close>

theorem total_coverage_last_positive_counter:
  assumes "report_path w project_path = Some path" and "et_parse w path = Inr rt"
    and "well_formed_report rt"
  shows "\<exists>d. total_coverage w project_path = Inr (ResultDict d)
     \<and> (\<forall>kind\<in>set counter_kinds.
          counters_of kind rt =
            filter (\<lambda>e. attr_get e ''type'' = Some kind)
              (filter (\<lambda>e. tag e = ''counter'') (descendants rt))
          \<and> (\<forall>pre c post.
                counters_of kind rt = pre @ c # post \<and> positive_total c
                  \<and> (\<forall>x\<in>set post. \<not> positive_total x)
                \<longrightarrow> (\<exists>p. counter_percentage c = Some p \<and> coverage_value kind d = PFloat p)))
     \<and> (\<forall>e. descendants e = concat (map (\<lambda>c. c # descendants c) (children e)))"
proof -
  from coverage_body_well_formed [OF assms(3)] obtain d where
    d: "coverage_body rt = Inr d"
      "\<forall>kind\<in>set counter_kinds.
         counter_loop (counters_of kind rt) (PInt 0) = Inr (coverage_value kind d)" by blast
  have "\<exists>p. counter_percentage c = Some p \<and> coverage_value kind d = PFloat p"
    if k: "kind \<in> set counter_kinds" and split: "counters_of kind rt = pre @ c # post"
      and pos: "positive_total c" and rest: "\<forall>x\<in>set post. \<not> positive_total x"
    for kind pre c post
  proof -
    from counter_loop_last [OF well_formed_report_kind [OF assms(3) k] split pos rest, of "PInt 0"]
    obtain p where "counter_percentage c = Some p"
      "counter_loop (counters_of kind rt) (PInt 0) = Inr (PFloat p)" by blast
    with d(2) k show ?thesis by auto
  qed
  moreover have "counters_of kind rt =
      filter (\<lambda>e. attr_get e ''type'' = Some kind)
        (filter (\<lambda>e. tag e = ''counter'') (descendants rt))" for kind
    by (simp add: counters_of_def findall_attr_def findall_def)
  moreover have "descendants e = concat (map (\<lambda>c. c # descendants c) (children e))" for e
  proof -
    have "iter c = c # descendants c" for c
      by (cases c) (simp add: descendants_def)
    then have "(\<lambda>c. c # descendants c) = iter" by (intro ext) simp
    then show ?thesis by (simp add: descendants_def)
  qed
  ultimately show ?thesis
    using total_coverage_read [OF assms(1,2) d(1)] by blast
qed

lemma example_read:
  "report_path example_world ''proj'' = Some ''proj/target/jacoco.xml''"
  "et_parse example_world ''proj/target/jacoco.xml'' = Inr example_report"
  by code_simp+

lemma example_well_formed: "well_formed_report example_report"
  by code_simp

lemma nested_read:
  "report_path nested_world ''proj'' = Some ''proj/build/jacoco/jacoco.xml''"
  "et_parse nested_world ''proj/build/jacoco/jacoco.xml'' = Inr nested_report"
  by code_simp+

lemma nested_well_formed: "well_formed_report nested_report"
  by code_simp

lemma nested_line_counters:
  "counters_of ''LINE'' nested_report =
     [Element ''counter'' [(''type'', ''LINE''), (''missed'', ''20''), (''covered'', ''80'')] []]
     @ Element ''counter'' [(''type'', ''LINE''), (''missed'', ''2''), (''covered'', ''1'')] []
     # []"
  by code_simp

lemma nested_deep_counter:
  "positive_total
     (Element ''counter'' [(''type'', ''LINE''), (''missed'', ''2''), (''covered'', ''1'')] [])"
  "counter_percentage
     (Element ''counter'' [(''type'', ''LINE''), (''missed'', ''2''), (''covered'', ''1'')] [])
   = Some (Finite False (2345390243441541 / 70368744177664))"
  by code_simp+


theorem total_coverage_last_positive_counter_witness:
  "report_path nested_world ''proj'' = Some ''proj/build/jacoco/jacoco.xml''
   \<and> et_parse nested_world ''proj/build/jacoco/jacoco.xml'' = Inr nested_report
   \<and> well_formed_report nested_report
   \<and> (\<exists>d. total_coverage nested_world ''proj'' = Inr (ResultDict d)
          \<and> coverage_value ''LINE'' d = PFloat (Finite False (2345390243441541 / 70368744177664)))
   \<and> total_coverage nested_world ''proj'' =
       Inr (ResultDict
         \<lparr>line_coverage = PFloat (Finite False (2345390243441541 / 70368744177664)),
          branch_coverage = PInt 0, method_coverage = PInt 0, instruction_coverage = PInt 0\<rparr>)"
proof -
  let ?c = "Element ''counter'' [(''type'', ''LINE''), (''missed'', ''2''), (''covered'', ''1'')] []"
  have run: "total_coverage nested_world ''proj'' =
       Inr (ResultDict
         \<lparr>line_coverage = PFloat (Finite False (2345390243441541 / 70368744177664)),
          branch_coverage = PInt 0, method_coverage = PInt 0, instruction_coverage = PInt 0\<rparr>)"
    by code_simp
  from total_coverage_last_positive_counter [OF nested_read nested_well_formed]
  obtain d where d: "total_coverage nested_world ''proj'' = Inr (ResultDict d)"
    and last: "\<And>kind pre c post. kind \<in> set counter_kinds \<Longrightarrow>
        counters_of kind nested_report = pre @ c # post \<and> positive_total c
          \<and> (\<forall>x\<in>set post. \<not> positive_total x)
        \<Longrightarrow> (\<exists>p. counter_percentage c = Some p \<and> coverage_value kind d = PFloat p)"
    by blast
  have "\<exists>p. counter_percentage ?c = Some p \<and> coverage_value ''LINE'' d = PFloat p"
    by (rule last [of "''LINE''" _ ?c "[]"])
      (use nested_line_counters nested_deep_counter(1) in \<open>simp_all add: counter_kinds_def\<close>)
  then have "coverage_value ''LINE'' d = PFloat (Finite False (2345390243441541 / 70368744177664))"
    using nested_deep_counter(2) by auto
  with d run nested_read nested_well_formed show ?thesis by blast
qed

section \<open>The percentage of the selected counter\<close>

lemma round_half_even_nearest:
  "\<bar>of_int (round_half_even x) - x\<bar> \<le> 1 / 2
   \<and> (\<bar>of_int (round_half_even x) - x\<bar> = 1 / 2 \<longrightarrow> even (round_half_even x))"
proof -
  define f where "f = \<lfloor>x\<rfloor>"
  define d where "d = x - of_int f"
  have d: "0 \<le> d" "d < 1"
    unfolding d_def f_def by linarith+
  have e0: "of_int f - x = - d" and e1: "of_int (f + 1) - x = 1 - d"
    by (simp_all add: d_def)
  have h: "round_half_even x =
      (if d < 1 / 2 then f else if 1 / 2 < d then f + 1 else if even f then f else f + 1)"
    by (simp only: round_half_even_def Let_def f_def d_def)
  consider "d < 1 / 2" | "1 / 2 < d" | "d = 1 / 2" "even f" | "d = 1 / 2" "odd f"
    by fastforce
  then show ?thesis
  proof cases
    case 1
    then have r: "round_half_even x = f" by (simp add: h)
    show ?thesis unfolding r e0 using 1 d by simp
  next
    case 2
    then have r: "round_half_even x = f + 1" by (simp add: h)
    show ?thesis unfolding r e1 using 2 d by simp
  next
    case 3
    then have r: "round_half_even x = f" by (simp add: h)
    show ?thesis unfolding r e0 using 3 by simp
  next
    case 4
    then have r: "round_half_even x = f + 1" by (simp add: h)
    show ?thesis unfolding r e1 using 4 by simp
  qed
qed

lemma percentage_formula:
  assumes "0 \<le> covered" "0 \<le> missed" "0 < covered + missed"
  shows "percentage covered (covered + missed) =
     Inr (Finite False
       (binary64_round
         (of_int (round_half_even
            (binary64_round
               (binary64_round (of_int covered / of_int (covered + missed)) * 100) * 100))
          / 100)))"
proof -
  define t where "t = covered + missed"
  define q1 :: rat where "q1 = of_int covered / of_int t"
  define r1 where "r1 = binary64_round q1"
  define r2 where "r2 = binary64_round (r1 * 100)"
  define q3 :: rat where "q3 = of_int (round_half_even (r2 * 100)) / 100"
  have t: "0 < t" "covered \<le> t" using assms by (simp_all add: t_def)
  have q1: "0 \<le> q1" "q1 \<le> 1" "\<bar>of_int covered / of_int t\<bar> = q1"
    using t assms(1) by (simp_all add: q1_def)
  have s1: "to_binary64 s q1 = Finite s r1" for s
    using to_binary64_small(1) [of q1 s] q1 by (simp add: r1_def)
  have r1: "0 \<le> r1" "r1 \<le> 2"
    using to_binary64_small(2) [of q1] q1 binary64_round_nonneg [of q1] by (simp_all add: r1_def)
  have s2: "to_binary64 s (r1 * 100) = Finite s r2" for s
    using to_binary64_small(1) [of "r1 * 100" s] r1 by (simp add: r2_def)
  have r2: "0 \<le> r2" "r2 \<le> 201"
    using to_binary64_small(2) [of "r1 * 100"] r1 binary64_round_nonneg [of "r1 * 100"]
    by (simp_all add: r2_def)
  have "0 \<le> round_half_even (r2 * 100)" using r2 by (simp add: round_half_even_nonneg)
  moreover have "of_int (round_half_even (r2 * 100)) \<le> r2 * 100 + 1 / 2"
    by (rule round_half_even_le)
  ultimately have q3: "0 \<le> q3" "q3 \<le> 1000" using r2 by (simp_all add: q3_def)
  have s3: "to_binary64 s q3 = Finite s (binary64_round q3)" for s
    using to_binary64_small(1) [of q3 s] q3 by simp
  have sg: "((covered < 0) \<noteq> (t < 0)) = False" using t assms(1) by simp
  have "int_truediv covered t =
      (case to_binary64 ((covered < 0) \<noteq> (t < 0)) q1 of
         Finite s m \<Rightarrow> Inr (Finite s m) | _ \<Rightarrow> Inl OverflowError)"
    using t q1(3) by (simp add: int_truediv_def)
  then have "int_truediv covered t = Inr (Finite False r1)"
    unfolding sg by (simp add: s1)
  then have "percentage covered t = Inr (Finite False (binary64_round q3))"
    unfolding percentage_def by (simp add: s2 s3 [unfolded q3_def] q3_def)
  then show ?thesis
    by (simp add: q3_def r2_def r1_def q1_def t_def)
qed

lemma counters_of_root_scope:
  assumes "children rt = before @ c # after" "children c = []" "tag c = ''counter''"
    "attr_get c ''type'' = Some kind"
    "\<forall>x\<in>set after. filter (\<lambda>e. tag e = ''counter'' \<and> attr_get e ''type'' = Some kind) (iter x) = []"
  shows "\<exists>pre. counters_of kind rt = pre @ c # []"
proof -
  have c: "iter c = [c]" using assms(2) by (cases c) simp
  have "filter (\<lambda>e. tag e = ''counter'' \<and> attr_get e ''type'' = Some kind) (concat (map iter after)) = []"
    using assms(5) by (induction after) simp_all
  then show ?thesis
    using assms(1,3,4) c
    by (simp add: counters_of_def findall_attr_def findall_def descendants_def)
qed

text \<open>
  C5, as stated, fails: in \<open>nested_report\<close> the \<open>LINE\<close> counter at root scope has
  \<open>covered="80"\<close> and \<open>missed="20"\<close>, and \<open>line_coverage\<close> is \<open>33.33\<close>, the percentage of
  the \<open>LINE\<close> counter that follows it deeper in the document.
\<close>

theorem root_scope_counter_counterexample:
  "hd (children nested_report) =
     Element ''counter'' [(''type'', ''LINE''), (''missed'', ''20''), (''covered'', ''80'')] []
   \<and> counter_values
        (Element ''counter'' [(''type'', ''LINE''), (''missed'', ''20''), (''covered'', ''80'')] [])
       = Some (80, 20)
   \<and> well_formed_report nested_report
   \<and> total_coverage nested_world ''proj'' =
       Inr (ResultDict
         \<lparr>line_coverage = PFloat (Finite False (2345390243441541 / 70368744177664)),
          branch_coverage = PInt 0, method_coverage = PInt 0, instruction_coverage = PInt 0\<rparr>)
   \<and> PFloat (Finite False (2345390243441541 / 70368744177664)) \<noteq> PFloat (Finite False 80)"
proof -
  have "hd (children nested_report) =
     Element ''counter'' [(''type'', ''LINE''), (''missed'', ''20''), (''covered'', ''80'')] []"
    by (simp add: nested_report_def)
  moreover have "counter_values
        (Element ''counter'' [(''type'', ''LINE''), (''missed'', ''20''), (''covered'', ''80'')] [])
       = Some (80, 20)"
    by code_simp
  moreover have "well_formed_report nested_report"
    by code_simp
  moreover have "total_coverage nested_world ''proj'' =
       Inr (ResultDict
         \<lparr>line_coverage = PFloat (Finite False (2345390243441541 / 70368744177664)),
          branch_coverage = PInt 0, method_coverage = PInt 0, instruction_coverage = PInt 0\<rparr>)"
    by code_simp
  ultimately show ?thesis by simp
qed

text \<open>
  C5, amended. For every well-formed report that \<open>total_coverage\<close> reads and every
  counter kind, if the last counter of the kind with a positive total has the values
  \<open>covered\<close> and \<open>missed\<close>, the value returned is
  \<open>round(covered / (covered + missed) * 100, 2)\<close>: the quotient rounded to a float,
  times \<open>100\<close> rounded to a float, rounded to the nearest multiple of \<open>0.01\<close> with ties
  to the even one, rounded to a float. This gives \<open>80.0\<close> for \<open>80\<close> and \<open>20\<close>, \<open>33.33\<close>
  for \<open>1\<close> and \<open>2\<close>, \<open>66.67\<close> for \<open>2\<close> and \<open>1\<close>, \<open>0.12\<close> for \<open>1\<close> and \<open>799\<close>, and
  \<open>0.01\<close> for \<open>1\<close> and \<open>19999\<close>. \<open>line_coverage\<close> is \<open>80.0\<close> when the \<open>LINE\<close> counter
  at root scope has \<open>covered="80"\<close> and \<open>missed="20"\<close> and no \<open>LINE\<close> counter follows
  it in the document.
\<close>

theorem total_coverage_percentage_formula:
  assumes "report_path w project_path = Some path" and "et_parse w path = Inr rt"
    and "well_formed_report rt"
  shows "\<exists>d. total_coverage w project_path = Inr (ResultDict d)
     \<and> (\<forall>kind\<in>set counter_kinds. \<forall>pre c post covered missed.
          counters_of kind rt = pre @ c # post \<and> counter_values c = Some (covered, missed)
            \<and> 0 < covered + missed \<and> (\<forall>x\<in>set post. \<not> positive_total x)
          \<longrightarrow> coverage_value kind d =
                PFloat (Finite False
                  (binary64_round
                    (of_int (round_half_even
                       (binary64_round
                          (binary64_round (of_int covered / of_int (covered + missed)) * 100)
                        * 100))
                     / 100)))
              \<and> (covered = 80 \<and> missed = 20
                   \<longrightarrow> coverage_value kind d = PFloat (Finite False 80))
              \<and> (covered = 1 \<and> missed = 2
                   \<longrightarrow> coverage_value kind d =
                         PFloat (Finite False (2345390243441541 / 70368744177664)))
              \<and> (covered = 2 \<and> missed = 1
                   \<longrightarrow> coverage_value kind d =
                         PFloat (Finite False (4691484174324859 / 70368744177664)))
              \<and> (covered = 1 \<and> missed = 799
                   \<longrightarrow> coverage_value kind d =
                         PFloat (Finite False (1080863910568919 / 9007199254740992)))
              \<and> (covered = 1 \<and> missed = 19999
                   \<longrightarrow> coverage_value kind d =
                         PFloat (Finite False (5764607523034235 / 576460752303423488))))
     \<and> (\<forall>x. \<bar>of_int (round_half_even x) - x\<bar> \<le> 1 / 2
            \<and> (\<bar>of_int (round_half_even x) - x\<bar> = 1 / 2 \<longrightarrow> even (round_half_even x)))
     \<and> (\<forall>before c after.
          children rt = before @ c # after \<and> children c = [] \<and> tag c = ''counter''
            \<and> attr_get c ''type'' = Some ''LINE'' \<and> counter_values c = Some (80, 20)
            \<and> (\<forall>x\<in>set after.
                  filter (\<lambda>e. tag e = ''counter'' \<and> attr_get e ''type'' = Some ''LINE'') (iter x) = [])
          \<longrightarrow> line_coverage d = PFloat (Finite False 80))"
proof -
  from coverage_body_well_formed [OF assms(3)] obtain d where
    d: "coverage_body rt = Inr d"
      "\<forall>kind\<in>set counter_kinds.
         counter_loop (counters_of kind rt) (PInt 0) = Inr (coverage_value kind d)" by blast
  have val: "coverage_value kind d = PFloat p"
    if k: "kind \<in> set counter_kinds" and split: "counters_of kind rt = pre @ c # post"
      and vals: "counter_values c = Some (covered, missed)" and tot: "0 < covered + missed"
      and rest: "\<forall>x\<in>set post. \<not> positive_total x"
      and pc: "percentage covered (covered + missed) = Inr p"
    for kind pre c post covered missed p
  proof -
    have pos: "positive_total c" using vals tot by (simp add: positive_total_def)
    from counter_loop_last [OF well_formed_report_kind [OF assms(3) k] split pos rest, of "PInt 0"]
    obtain p' where p': "counter_percentage c = Some p'"
      "counter_loop (counters_of kind rt) (PInt 0) = Inr (PFloat p')" by blast
    from p'(1) vals pc have "p' = p"
      by (auto simp: counter_percentage_def split: sum.splits)
    then show ?thesis using p'(2) d(2) k by auto
  qed
  have nonneg: "0 \<le> covered \<and> 0 \<le> missed"
    if k: "kind \<in> set counter_kinds" and split: "counters_of kind rt = pre @ c # post"
      and vals: "counter_values c = Some (covered, missed)"
    for kind pre c post covered missed
  proof -
    have "well_formed_counter c"
      using well_formed_report_kind [OF assms(3) k] split by (simp add: list_all_iff)
    with vals show ?thesis by (simp add: well_formed_counter_def)
  qed
  have main: "coverage_value kind d =
                PFloat (Finite False
                  (binary64_round
                    (of_int (round_half_even
                       (binary64_round
                          (binary64_round (of_int covered / of_int (covered + missed)) * 100)
                        * 100))
                     / 100)))
              \<and> (covered = 80 \<and> missed = 20
                   \<longrightarrow> coverage_value kind d = PFloat (Finite False 80))
              \<and> (covered = 1 \<and> missed = 2
                   \<longrightarrow> coverage_value kind d =
                         PFloat (Finite False (2345390243441541 / 70368744177664)))
              \<and> (covered = 2 \<and> missed = 1
                   \<longrightarrow> coverage_value kind d =
                         PFloat (Finite False (4691484174324859 / 70368744177664)))
              \<and> (covered = 1 \<and> missed = 799
                   \<longrightarrow> coverage_value kind d =
                         PFloat (Finite False (1080863910568919 / 9007199254740992)))
              \<and> (covered = 1 \<and> missed = 19999
                   \<longrightarrow> coverage_value kind d =
                         PFloat (Finite False (5764607523034235 / 576460752303423488)))"
    if k: "kind \<in> set counter_kinds" and split: "counters_of kind rt = pre @ c # post"
      and vals: "counter_values c = Some (covered, missed)" and tot: "0 < covered + missed"
      and rest: "\<forall>x\<in>set post. \<not> positive_total x"
    for kind pre c post covered missed
  proof -
    note v = val [OF k split vals tot rest]
    from nonneg [OF k split vals] have nn: "0 \<le> covered" "0 \<le> missed" by simp_all
    have inst:
      "percentage 80 (80 + 20) = Inr (Finite False 80)"
      "percentage 1 (1 + 2) = Inr (Finite False (2345390243441541 / 70368744177664))"
      "percentage 2 (2 + 1) = Inr (Finite False (4691484174324859 / 70368744177664))"
      "percentage 1 (1 + 799) = Inr (Finite False (1080863910568919 / 9007199254740992))"
      "percentage 1 (1 + 19999) = Inr (Finite False (5764607523034235 / 576460752303423488))"
      by code_simp+
    have f: "coverage_value kind d =
                PFloat (Finite False
                  (binary64_round
                    (of_int (round_half_even
                       (binary64_round
                          (binary64_round (of_int covered / of_int (covered + missed)) * 100)
                        * 100))
                     / 100)))"
      by (rule v [OF percentage_formula [OF nn tot]])
    have i1: "covered = 80 \<and> missed = 20
        \<longrightarrow> coverage_value kind d = PFloat (Finite False 80)"
      using v [of "Finite False 80"] inst(1) by auto
    have i2: "covered = 1 \<and> missed = 2
        \<longrightarrow> coverage_value kind d = PFloat (Finite False (2345390243441541 / 70368744177664))"
      using v [of "Finite False (2345390243441541 / 70368744177664)"] inst(2)
      by auto
    have i3: "covered = 2 \<and> missed = 1
        \<longrightarrow> coverage_value kind d = PFloat (Finite False (4691484174324859 / 70368744177664))"
      using v [of "Finite False (4691484174324859 / 70368744177664)"] inst(3)
      by auto
    have i4: "covered = 1 \<and> missed = 799
        \<longrightarrow> coverage_value kind d = PFloat (Finite False (1080863910568919 / 9007199254740992))"
      using v [of "Finite False (1080863910568919 / 9007199254740992)"] inst(4)
      by auto
    have i5: "covered = 1 \<and> missed = 19999
        \<longrightarrow> coverage_value kind d =
            PFloat (Finite False (5764607523034235 / 576460752303423488))"
      using v [of "Finite False (5764607523034235 / 576460752303423488)"] inst(5)
      by auto
    from f i1 i2 i3 i4 i5 show ?thesis by blast
  qed
  have root: "line_coverage d = PFloat (Finite False 80)"
    if ch: "children rt = before @ c # after" and leaf: "children c = []"
      and tg: "tag c = ''counter''" and ty: "attr_get c ''type'' = Some ''LINE''"
      and vals: "counter_values c = Some (80, 20)"
      and none: "\<forall>x\<in>set after.
        filter (\<lambda>e. tag e = ''counter'' \<and> attr_get e ''type'' = Some ''LINE'') (iter x) = []"
    for before c after
  proof -
    from counters_of_root_scope [OF ch leaf tg ty none] obtain pre where
      pre: "counters_of ''LINE'' rt = pre @ c # []" ..
    have k: "''LINE'' \<in> set counter_kinds" by (simp add: counter_kinds_def)
    have t: "(0::int) < 80 + 20" by simp
    have r: "\<forall>x\<in>set []. \<not> positive_total x" by simp
    from main [OF k pre vals t r]
    have "coverage_value ''LINE'' d = PFloat (Finite False 80)" by blast
    then show ?thesis by (simp add: coverage_value_def)
  qed
  show ?thesis
    using total_coverage_read [OF assms(1,2) d(1)] main root round_half_even_nearest by blast
qed


lemma example_children:
  "children example_report =
     [Element ''package'' [(''name'', ''demo'')]
        [Element ''sourcefile'' [(''name'', ''Foo.java'')]
           [Element ''line'' [(''nr'', ''3''), (''mi'', ''2''), (''ci'', ''0''),
                             (''mb'', ''0''), (''cb'', ''0'')] [],
            Element ''line'' [(''nr'', ''4''), (''mi'', ''0''), (''ci'', ''3''),
                             (''mb'', ''1''), (''cb'', ''1'')] [],
            Element ''counter'' [(''type'', ''LINE''), (''missed'', ''1''),
                                (''covered'', ''1'')] []],
         Element ''counter'' [(''type'', ''LINE''), (''missed'', ''1''),
                             (''covered'', ''1'')] []],
      Element ''counter'' [(''type'', ''METHOD''), (''missed'', ''0''), (''covered'', ''0'')] [],
      Element ''counter'' [(''type'', ''COMPLEXITY''), (''missed'', ''x''),
                          (''covered'', ''y'')] [],
      Element ''counter'' [(''type'', ''INSTRUCTION''), (''covered'', ''1'')] []]
     @ Element ''counter'' [(''type'', ''LINE''), (''missed'', ''20''), (''covered'', ''80'')] []
     # []"
  unfolding example_report_def xml.sel append.simps by (rule refl)

lemma example_root_counter:
  "counter_values
     (Element ''counter'' [(''type'', ''LINE''), (''missed'', ''20''), (''covered'', ''80'')] [])
   = Some (80, 20)"
  by code_simp

lemma nested_deep_values:
  "counter_values
     (Element ''counter'' [(''type'', ''LINE''), (''missed'', ''2''), (''covered'', ''1'')] [])
   = Some (1, 2)"
  by code_simp

theorem total_coverage_percentage_formula_witness:
  "report_path example_world ''proj'' = Some ''proj/target/jacoco.xml''
   \<and> et_parse example_world ''proj/target/jacoco.xml'' = Inr example_report
   \<and> well_formed_report example_report
   \<and> (\<exists>d. total_coverage example_world ''proj'' = Inr (ResultDict d)
          \<and> line_coverage d = PFloat (Finite False 80))
   \<and> report_path nested_world ''proj'' = Some ''proj/build/jacoco/jacoco.xml''
   \<and> et_parse nested_world ''proj/build/jacoco/jacoco.xml'' = Inr nested_report
   \<and> well_formed_report nested_report
   \<and> (\<exists>d. total_coverage nested_world ''proj'' = Inr (ResultDict d)
          \<and> coverage_value ''LINE'' d =
              PFloat (Finite False (2345390243441541 / 70368744177664)))
   \<and> total_coverage example_world ''proj'' =
       Inr (ResultDict \<lparr>line_coverage = PFloat (Finite False 80), branch_coverage = PInt 0,
              method_coverage = PInt 0, instruction_coverage = PFloat (Finite False 100)\<rparr>)"
proof -
  have run: "total_coverage example_world ''proj'' =
       Inr (ResultDict \<lparr>line_coverage = PFloat (Finite False 80), branch_coverage = PInt 0,
              method_coverage = PInt 0, instruction_coverage = PFloat (Finite False 100)\<rparr>)"
    by code_simp
  let ?c = "Element ''counter'' [(''type'', ''LINE''), (''missed'', ''20''), (''covered'', ''80'')] []"
  let ?n = "Element ''counter'' [(''type'', ''LINE''), (''missed'', ''2''), (''covered'', ''1'')] []"
  from total_coverage_percentage_formula [OF example_read example_well_formed]
  obtain d where d: "total_coverage example_world ''proj'' = Inr (ResultDict d)"
    and root: "\<And>before c after.
        children example_report = before @ c # after \<and> children c = [] \<and> tag c = ''counter''
          \<and> attr_get c ''type'' = Some ''LINE'' \<and> counter_values c = Some (80, 20)
          \<and> (\<forall>x\<in>set after.
                filter (\<lambda>e. tag e = ''counter'' \<and> attr_get e ''type'' = Some ''LINE'') (iter x) = [])
        \<Longrightarrow> line_coverage d = PFloat (Finite False 80)"
    by blast
  have ty: "attr_get ?c ''type'' = Some ''LINE''"
    by (simp add: attr_get_def)
  have sel: "children ?c = []" "tag ?c = ''counter''" by simp_all
  have one: "line_coverage d = PFloat (Finite False 80)"
    by (rule root [of _ ?c "[]"]) (use example_children sel ty example_root_counter in simp)
  from total_coverage_percentage_formula [OF nested_read nested_well_formed]
  obtain d' where d': "total_coverage nested_world ''proj'' = Inr (ResultDict d')"
    and sel': "\<forall>kind\<in>set counter_kinds. \<forall>pre c post covered missed.
          counters_of kind nested_report = pre @ c # post \<and> counter_values c = Some (covered, missed)
            \<and> 0 < covered + missed \<and> (\<forall>x\<in>set post. \<not> positive_total x)
          \<longrightarrow> coverage_value kind d' =
                PFloat (Finite False
                  (binary64_round
                    (of_int (round_half_even
                       (binary64_round
                          (binary64_round (of_int covered / of_int (covered + missed)) * 100)
                        * 100))
                     / 100)))
              \<and> (covered = 80 \<and> missed = 20
                   \<longrightarrow> coverage_value kind d' = PFloat (Finite False 80))
              \<and> (covered = 1 \<and> missed = 2
                   \<longrightarrow> coverage_value kind d' =
                         PFloat (Finite False (2345390243441541 / 70368744177664)))
              \<and> (covered = 2 \<and> missed = 1
                   \<longrightarrow> coverage_value kind d' =
                         PFloat (Finite False (4691484174324859 / 70368744177664)))
              \<and> (covered = 1 \<and> missed = 799
                   \<longrightarrow> coverage_value kind d' =
                         PFloat (Finite False (1080863910568919 / 9007199254740992)))
              \<and> (covered = 1 \<and> missed = 19999
                   \<longrightarrow> coverage_value kind d' =
                         PFloat (Finite False (5764607523034235 / 576460752303423488)))"
    by (elim exE conjE) (rule that, assumption+)
  have k: "''LINE'' \<in> set counter_kinds" by (simp add: counter_kinds_def)
  have hyp: "counters_of ''LINE'' nested_report =
      [Element ''counter'' [(''type'', ''LINE''), (''missed'', ''20''), (''covered'', ''80'')] []]
        @ ?n # []
      \<and> counter_values ?n = Some (1, 2)
      \<and> (0::int) < 1 + 2 \<and> (\<forall>x\<in>set []. \<not> positive_total x)"
    using nested_line_counters nested_deep_values by simp
  from sel' [rule_format, OF k hyp]
  have two: "coverage_value ''LINE'' d' =
      PFloat (Finite False (2345390243441541 / 70368744177664))"
    by blast
  from d one d' two run example_read example_well_formed nested_read nested_well_formed
  show ?thesis by blast
qed

section \<open>A report that is not well-formed XML\<close>

lemma total_coverage_returns: "\<exists>r. total_coverage w project_path = Inr r"
  by (auto simp: total_coverage_def Let_def split: sum.splits pyexc.splits)

text \<open>
  C2. \<open>total_coverage\<close> returns a dictionary on every input and lets no exception
  leave the call. When the located file is not well-formed XML the dictionary is an
  error result; when the file is handed to \<open>ET.parse\<close> and the parser raises
  \<open>ParseError\<close>, the error text is \<open>Invalid JaCoCo XML:\<close> followed by the parser's
  message.
\<close>

theorem total_coverage_malformed_report:
  "(\<exists>r. total_coverage w project_path = Inr r)
   \<and> (\<forall>msg. et_parse w (find_jacoco_path w project_path) = Inl (ParseError msg)
        \<longrightarrow> (\<exists>t. total_coverage w project_path = Inr (ErrorDict t)))
   \<and> (\<forall>path msg. report_path w project_path = Some path
          \<and> et_parse w path = Inl (ParseError msg)
        \<longrightarrow> total_coverage w project_path =
              Inr (ErrorDict (Formatted ''Invalid JaCoCo XML: '' (ParseError msg))))"
  using total_coverage_returns [of w project_path]
  by (auto simp: total_coverage_def report_path_def Let_def split: if_splits)

lemma broken_read:
  "report_path broken_world ''proj'' = Some ''proj/target/jacoco.xml''"
  "et_parse broken_world ''proj/target/jacoco.xml''
     = Inl (ParseError ''no element found: line 1, column 8'')"
  by code_simp+

theorem total_coverage_malformed_report_witness:
  "report_path broken_world ''proj'' = Some ''proj/target/jacoco.xml''
   \<and> et_parse broken_world ''proj/target/jacoco.xml''
       = Inl (ParseError ''no element found: line 1, column 8'')
   \<and> total_coverage broken_world ''proj'' =
       Inr (ErrorDict (Formatted ''Invalid JaCoCo XML: ''
             (ParseError ''no element found: line 1, column 8'')))"
  using total_coverage_malformed_report [of broken_world "''proj''"] broken_read
  by blast

section \<open>What the counter loop can raise\<close>

lemma py_int_error: "py_int s = Inl e \<Longrightarrow> e = ValueError s"
  by (auto simp: py_int_def Let_def split: if_splits option.splits)

lemma int_attr_default_error: "int_attr_default c key = Inl e \<Longrightarrow> \<exists>s. e = ValueError s"
  by (auto simp: int_attr_default_def split: option.splits dest: py_int_error)

lemma py_round_error: "py_round x n = Inl e \<Longrightarrow> e = OverflowError"
  by (cases x) (auto split: if_splits pyfloat.splits)

lemma percentage_error: "0 < t \<Longrightarrow> percentage a t = Inl e \<Longrightarrow> e = OverflowError"
  by (auto simp: percentage_def int_truediv_def split: sum.splits pyfloat.splits
      dest: py_round_error)

lemma counter_loop_error:
  "counter_loop cs v = Inl e \<Longrightarrow> e = OverflowError \<or> (\<exists>s. e = ValueError s)"
proof (induction cs arbitrary: v)
  case Nil
  then show ?case by simp
next
  case (Cons c cs)
  then show ?case
    by (auto simp: Let_def split: sum.splits if_splits
        dest: int_attr_default_error percentage_error)
qed

lemma coverage_body_error:
  "coverage_body rt = Inl e \<Longrightarrow> e = OverflowError \<or> (\<exists>s. e = ValueError s)"
  by (auto simp: coverage_body_def split: sum.splits dest: counter_loop_error)

lemma counter_loop_append:
  "counter_loop (xs @ ys) v =
     (case counter_loop xs v of Inl e \<Rightarrow> Inl e | Inr v' \<Rightarrow> counter_loop ys v')"
  by (induction xs arbitrary: v) (auto simp: Let_def split: sum.splits)

section \<open>Counters with a zero total\<close>

text \<open>
  C3, as stated, fails: in \<open>stale_report\<close> the second \<open>LINE\<close> counter has
  \<open>covered="0"\<close> and \<open>missed="0"\<close> and no \<open>LINE\<close> counter follows it, and
  \<open>line_coverage\<close> is not the default \<open>0\<close> but \<open>80.0\<close>, the percentage of the counter
  before it.
\<close>

theorem zero_counter_after_positive_counterexample:
  "counters_of ''LINE'' stale_report =
     [Element ''counter'' [(''type'', ''LINE''), (''missed'', ''20''), (''covered'', ''80'')] [],
      Element ''counter'' [(''type'', ''LINE''), (''missed'', ''0''), (''covered'', ''0'')] []]
   \<and> counter_values
        (Element ''counter'' [(''type'', ''LINE''), (''missed'', ''0''), (''covered'', ''0'')] [])
       = Some (0, 0)
   \<and> total_coverage stale_world ''proj'' =
       Inr (ResultDict \<lparr>line_coverage = PFloat (Finite False 80), branch_coverage = PInt 0,
              method_coverage = PInt 0, instruction_coverage = PInt 0\<rparr>)
   \<and> PFloat (Finite False 80) \<noteq> PInt 0"
proof -
  have "counters_of ''LINE'' stale_report =
     [Element ''counter'' [(''type'', ''LINE''), (''missed'', ''20''), (''covered'', ''80'')] [],
      Element ''counter'' [(''type'', ''LINE''), (''missed'', ''0''), (''covered'', ''0'')] []]"
    by code_simp
  moreover have "counter_values
        (Element ''counter'' [(''type'', ''LINE''), (''missed'', ''0''), (''covered'', ''0'')] [])
       = Some (0, 0)"
    by code_simp
  moreover have "total_coverage stale_world ''proj'' =
       Inr (ResultDict \<lparr>line_coverage = PFloat (Finite False 80), branch_coverage = PInt 0,
              method_coverage = PInt 0, instruction_coverage = PInt 0\<rparr>)"
    by code_simp
  ultimately show ?thesis by simp
qed

text \<open>
  C3, amended. A counter node with \<open>covered=0\<close> and \<open>missed=0\<close> has no effect on the
  percentage of its kind: the loop gives the same result with the node as without it.
  So for every well-formed report that \<open>total_coverage\<close> reads, a kind that has such a
  node and no node with a positive total, before or after it, keeps the default \<open>0\<close>.
  No report makes the aggregation raise \<open>ZeroDivisionError\<close>.
\<close>

theorem zero_total_counter_keeps_value:
  assumes "report_path w project_path = Some path" and "et_parse w path = Inr rt"
    and "well_formed_report rt"
  shows "\<exists>d. total_coverage w project_path = Inr (ResultDict d)
     \<and> (\<forall>kind\<in>set counter_kinds. \<forall>c\<in>set (counters_of kind rt).
          counter_values c = Some (0, 0)
            \<and> (\<forall>x\<in>set (counters_of kind rt). \<not> positive_total x)
          \<longrightarrow> coverage_value kind d = PInt 0)
     \<and> (\<forall>pre c post v. counter_values c = Some (0, 0)
          \<longrightarrow> counter_loop (pre @ c # post) v = counter_loop (pre @ post) v)
     \<and> (\<forall>rt'. coverage_body rt' \<noteq> Inl ZeroDivisionError)"
proof -
  from coverage_body_well_formed [OF assms(3)] obtain d where
    d: "coverage_body rt = Inr d"
      "\<forall>kind\<in>set counter_kinds.
         counter_loop (counters_of kind rt) (PInt 0) = Inr (coverage_value kind d)" by blast
  have "coverage_value kind d = PInt 0"
    if k: "kind \<in> set counter_kinds"
      and none: "\<forall>x\<in>set (counters_of kind rt). \<not> positive_total x" for kind
    using counter_loop_none [OF well_formed_report_kind [OF assms(3) k] none, of "PInt 0"]
      d(2) k by auto
  moreover have "counter_loop (pre @ c # post) v = counter_loop (pre @ post) v"
    if "counter_values c = Some (0, 0)" for pre c post v
  proof -
    have "counter_loop (c # post) v' = counter_loop post v'" for v'
      using that by (auto simp: counter_values_def Let_def split: sum.splits)
    then show ?thesis by (simp add: counter_loop_append split: sum.splits)
  qed
  moreover have "coverage_body rt' \<noteq> Inl ZeroDivisionError" for rt'
    using coverage_body_error [of rt' ZeroDivisionError] by auto
  ultimately show ?thesis
    using total_coverage_read [OF assms(1,2) d(1)] by blast
qed

theorem zero_total_counter_keeps_value_witness:
  "report_path example_world ''proj'' = Some ''proj/target/jacoco.xml''
   \<and> et_parse example_world ''proj/target/jacoco.xml'' = Inr example_report
   \<and> well_formed_report example_report
   \<and> (\<exists>d. total_coverage example_world ''proj'' = Inr (ResultDict d)
          \<and> coverage_value ''METHOD'' d = PInt 0)
   \<and> total_coverage example_world ''proj'' =
       Inr (ResultDict \<lparr>line_coverage = PFloat (Finite False 80), branch_coverage = PInt 0,
              method_coverage = PInt 0, instruction_coverage = PFloat (Finite False 100)\<rparr>)"
proof -
  have run: "total_coverage example_world ''proj'' =
       Inr (ResultDict \<lparr>line_coverage = PFloat (Finite False 80), branch_coverage = PInt 0,
              method_coverage = PInt 0, instruction_coverage = PFloat (Finite False 100)\<rparr>)"
    by code_simp
  let ?c = "Element ''counter'' [(''type'', ''METHOD''), (''missed'', ''0''), (''covered'', ''0'')] []"
  from zero_total_counter_keeps_value [OF example_read example_well_formed]
  obtain d where d: "total_coverage example_world ''proj'' = Inr (ResultDict d)"
    and zero: "\<And>kind c. kind \<in> set counter_kinds \<Longrightarrow> c \<in> set (counters_of kind example_report)
        \<Longrightarrow> counter_values c = Some (0, 0)
            \<and> (\<forall>x\<in>set (counters_of kind example_report). \<not> positive_total x)
        \<Longrightarrow> coverage_value kind d = PInt 0"
    by blast
  have cs: "counters_of ''METHOD'' example_report = [?c]" by code_simp
  have v: "counter_values ?c = Some (0, 0)" by code_simp
  have np: "\<not> positive_total ?c" by (simp add: positive_total_def v)
  have "coverage_value ''METHOD'' d = PInt 0"
    by (rule zero [of "''METHOD''" ?c]) (simp_all add: counter_kinds_def cs v np)
  with d run example_read example_well_formed show ?thesis by blast
qed

section \<open>Absent kinds, defaults and unknown kinds\<close>

lemma counter_loop_float_iff:
  assumes "list_all well_formed_counter cs" "counter_loop cs (PInt 0) = Inr r"
  shows "is_float r \<longleftrightarrow> (\<exists>c\<in>set cs. positive_total c)"
proof -
  from counter_loop_well_formed [OF assms(1), of "PInt 0"] assms(2)
  have r: "case filter positive_total cs of [] \<Rightarrow> r = PInt 0
       | x # xs \<Rightarrow> map_option PFloat (counter_percentage (last (x # xs))) = Some r" by auto
  show ?thesis
  proof (cases "filter positive_total cs")
    case Nil
    then have "\<not> (\<exists>c\<in>set cs. positive_total c)" by (simp add: filter_empty_conv)
    with r Nil show ?thesis by simp
  next
    case (Cons x xs)
    then have "x \<in> set (filter positive_total cs)" by simp
    then have "\<exists>c\<in>set cs. positive_total c" by auto
    moreover from r Cons have "is_float r" by auto
    ultimately show ?thesis by simp
  qed
qed

lemma counters_of_unknown_kind:
  assumes "attr_get u ''type'' \<noteq> Some kind" "children u = []"
  shows "counters_of kind (Element t a (before @ u # after))
       = counters_of kind (Element t a (before @ after))"
proof -
  have "iter u = [u]" using assms(2) by (cases u) simp
  then show ?thesis
    using assms(1)
    by (simp add: counters_of_def findall_attr_def findall_def descendants_def)
qed

text \<open>
  C6, as stated, fails: in \<open>example_report\<close> the kind \<open>METHOD\<close> is present, with one
  counter of total \<open>0\<close>, and the value of \<open>method_coverage\<close> is the integer \<open>0\<close>, not a
  float.
\<close>

theorem present_zero_kind_counterexample:
  "counters_of ''METHOD'' example_report =
     [Element ''counter'' [(''type'', ''METHOD''), (''missed'', ''0''), (''covered'', ''0'')] []]
   \<and> well_formed_report example_report
   \<and> total_coverage example_world ''proj'' =
       Inr (ResultDict \<lparr>line_coverage = PFloat (Finite False 80), branch_coverage = PInt 0,
              method_coverage = PInt 0, instruction_coverage = PFloat (Finite False 100)\<rparr>)
   \<and> \<not> is_float (PInt 0)"
proof -
  have "counters_of ''METHOD'' example_report =
     [Element ''counter'' [(''type'', ''METHOD''), (''missed'', ''0''), (''covered'', ''0'')] []]"
    by code_simp
  moreover have "well_formed_report example_report"
    by code_simp
  moreover have "total_coverage example_world ''proj'' =
       Inr (ResultDict \<lparr>line_coverage = PFloat (Finite False 80), branch_coverage = PInt 0,
              method_coverage = PInt 0, instruction_coverage = PFloat (Finite False 100)\<rparr>)"
    by code_simp
  ultimately show ?thesis by simp
qed

text \<open>
  C6, amended. For every well-formed report that \<open>total_coverage\<close> reads, a counter
  kind that is entirely absent has the integer default \<open>0\<close> under its key; the value
  of a kind is a float exactly when some counter of the kind has a positive total, and
  is the integer \<open>0\<close> otherwise. A missing \<open>covered\<close> or \<open>missed\<close> attribute counts as
  \<open>0\<close>. A counter node of another kind is ignored: the aggregation gives the same
  result with it as without it, whatever its attributes are.
\<close>

theorem absent_kind_default:
  assumes "report_path w project_path = Some path" and "et_parse w path = Inr rt"
    and "well_formed_report rt"
  shows "\<exists>d. total_coverage w project_path = Inr (ResultDict d)
     \<and> (\<forall>kind\<in>set counter_kinds.
          (counters_of kind rt = [] \<longrightarrow> coverage_value kind d = PInt 0)
          \<and> (is_float (coverage_value kind d)
               \<longleftrightarrow> (\<exists>c\<in>set (counters_of kind rt). positive_total c))
          \<and> ((\<forall>c\<in>set (counters_of kind rt). \<not> positive_total c)
               \<longrightarrow> coverage_value kind d = PInt 0))
     \<and> (\<forall>c key. attr_get c key = None \<longrightarrow> int_attr_default c key = Inr 0)
     \<and> (\<forall>t a before u after.
          (\<forall>kind\<in>set counter_kinds. attr_get u ''type'' \<noteq> Some kind) \<and> children u = []
          \<longrightarrow> coverage_body (Element t a (before @ u # after))
              = coverage_body (Element t a (before @ after)))"
proof -
  from coverage_body_well_formed [OF assms(3)] obtain d where
    d: "coverage_body rt = Inr d"
      "\<forall>kind\<in>set counter_kinds.
         counter_loop (counters_of kind rt) (PInt 0) = Inr (coverage_value kind d)" by blast
  have kinds: "(counters_of kind rt = [] \<longrightarrow> coverage_value kind d = PInt 0)
          \<and> (is_float (coverage_value kind d)
               \<longleftrightarrow> (\<exists>c\<in>set (counters_of kind rt). positive_total c))
          \<and> ((\<forall>c\<in>set (counters_of kind rt). \<not> positive_total c)
               \<longrightarrow> coverage_value kind d = PInt 0)"
    if k: "kind \<in> set counter_kinds" for kind
  proof -
    note wf = well_formed_report_kind [OF assms(3) k]
    have l: "counter_loop (counters_of kind rt) (PInt 0) = Inr (coverage_value kind d)"
      using d(2) k by blast
    have none: "coverage_value kind d = PInt 0"
      if "\<forall>c\<in>set (counters_of kind rt). \<not> positive_total c"
      using counter_loop_none [OF wf that, of "PInt 0"] l by simp
    have "counters_of kind rt = [] \<longrightarrow> coverage_value kind d = PInt 0"
      using none by auto
    with counter_loop_float_iff [OF wf l] none show ?thesis by blast
  qed
  have dflt: "int_attr_default c key = Inr 0" if "attr_get c key = None" for c key
    using that by (simp add: int_attr_default_def)
  have unknown: "coverage_body (Element t a (before @ u # after))
       = coverage_body (Element t a (before @ after))"
    if "\<forall>kind\<in>set counter_kinds. attr_get u ''type'' \<noteq> Some kind" "children u = []"
    for t a before u after
  proof -
    have e: "counters_of kind (Element t a (before @ u # after))
        = counters_of kind (Element t a (before @ after))" if "kind \<in> set counter_kinds" for kind
      using counters_of_unknown_kind [OF _ \<open>children u = []\<close>] that
        \<open>\<forall>kind\<in>set counter_kinds. attr_get u ''type'' \<noteq> Some kind\<close> by blast
    have e4: "counters_of ''LINE'' (Element t a (before @ u # after))
          = counters_of ''LINE'' (Element t a (before @ after))"
        "counters_of ''BRANCH'' (Element t a (before @ u # after))
          = counters_of ''BRANCH'' (Element t a (before @ after))"
        "counters_of ''METHOD'' (Element t a (before @ u # after))
          = counters_of ''METHOD'' (Element t a (before @ after))"
        "counters_of ''INSTRUCTION'' (Element t a (before @ u # after))
          = counters_of ''INSTRUCTION'' (Element t a (before @ after))"
      by (rule e, simp add: counter_kinds_def)+
    show ?thesis
      unfolding coverage_body_def e4 by (rule refl)
  qed
  show ?thesis
    using total_coverage_read [OF assms(1,2) d(1)] kinds dflt unknown by blast
qed


theorem absent_kind_default_witness:
  "report_path example_world ''proj'' = Some ''proj/target/jacoco.xml''
   \<and> et_parse example_world ''proj/target/jacoco.xml'' = Inr example_report
   \<and> well_formed_report example_report
   \<and> (\<exists>d. total_coverage example_world ''proj'' = Inr (ResultDict d)
          \<and> coverage_value ''BRANCH'' d = PInt 0
          \<and> is_float (coverage_value ''LINE'' d)
          \<and> \<not> is_float (coverage_value ''METHOD'' d))
   \<and> total_coverage example_world ''proj'' =
       Inr (ResultDict \<lparr>line_coverage = PFloat (Finite False 80), branch_coverage = PInt 0,
              method_coverage = PInt 0, instruction_coverage = PFloat (Finite False 100)\<rparr>)"
proof -
  have run: "total_coverage example_world ''proj'' =
       Inr (ResultDict \<lparr>line_coverage = PFloat (Finite False 80), branch_coverage = PInt 0,
              method_coverage = PInt 0, instruction_coverage = PFloat (Finite False 100)\<rparr>)"
    by code_simp
  from absent_kind_default [OF example_read example_well_formed]
  obtain d where d: "total_coverage example_world ''proj'' = Inr (ResultDict d)"
    and kinds: "\<forall>kind\<in>set counter_kinds.
          (counters_of kind example_report = [] \<longrightarrow> coverage_value kind d = PInt 0)
          \<and> (is_float (coverage_value kind d)
               \<longleftrightarrow> (\<exists>c\<in>set (counters_of kind example_report). positive_total c))
          \<and> ((\<forall>c\<in>set (counters_of kind example_report). \<not> positive_total c)
               \<longrightarrow> coverage_value kind d = PInt 0)"
    by (elim exE conjE) (rule that, assumption+)
  have b: "counters_of ''BRANCH'' example_report = []" by code_simp
  have l: "\<exists>c\<in>set (counters_of ''LINE'' example_report). positive_total c"
    by code_simp
  have m: "\<not> (\<exists>c\<in>set (counters_of ''METHOD'' example_report). positive_total c)"
    by code_simp
  have "coverage_value ''BRANCH'' d = PInt 0"
    using kinds [rule_format, of "''BRANCH''"] b by (simp add: counter_kinds_def)
  moreover have "is_float (coverage_value ''LINE'' d)"
    using kinds [rule_format, of "''LINE''"] l by (simp add: counter_kinds_def)
  moreover have "\<not> is_float (coverage_value ''METHOD'' d)"
    using kinds [rule_format, of "''METHOD''"] m by (simp add: counter_kinds_def)
  ultimately show ?thesis using d run example_read example_well_formed by blast
qed

section \<open>The uncovered lines of the matched source files\<close>

lemma line_loop_readable:
  assumes "list_all readable_line ls"
  shows "\<exists>es. line_loop ls acc = Inr (acc @ es) \<and> list_all2 entry_of (filter ci_zero ls) es"
  using assms
proof (induction ls arbitrary: acc)
  case Nil
  then show ?case by simp
next
  case (Cons l ls)
  then have rl: "readable_line l" and rls: "list_all readable_line ls" by simp_all
  from rl obtain ci where ci: "int_attr_default l ''ci'' = Inr ci"
    by (auto simp: readable_line_def split: sum.splits)
  show ?case
  proof (cases "ci = 0")
    case True
    with rl ci obtain nr cb where nr: "int_attr l ''nr'' = Inr nr"
      and cb: "int_attr_default l ''cb'' = Inr cb"
      by (auto simp: readable_line_def split: sum.splits)
    define e where "e = \<lparr>line_number = nr, instruction_count = ci, branch_count = cb\<rparr>"
    have step: "line_loop (l # ls) acc = line_loop ls (acc @ [e])"
      using ci nr cb True by (simp add: e_def)
    from Cons.IH [OF rls, of "acc @ [e]"] obtain es where
      es: "line_loop ls (acc @ [e]) = Inr ((acc @ [e]) @ es)"
        "list_all2 entry_of (filter ci_zero ls) es" by blast
    have "entry_of l e" using ci nr cb by (simp add: entry_of_def e_def)
    moreover have "ci_zero l" using ci True by (simp add: ci_zero_def)
    ultimately have "list_all2 entry_of (filter ci_zero (l # ls)) (e # es)"
      using es(2) by simp
    moreover have "line_loop (l # ls) acc = Inr (acc @ e # es)"
      using step es(1) by simp
    ultimately show ?thesis by blast
  next
    case False
    then have "line_loop (l # ls) acc = line_loop ls acc" using ci by simp
    moreover have "\<not> ci_zero l" using ci False by (simp add: ci_zero_def)
    ultimately show ?thesis using Cons.IH [OF rls, of acc] by simp
  qed
qed

lemma sourcefile_loop_readable:
  assumes "\<forall>sf\<in>set (filter (sourcefile_matches fn fp) sfs).
      list_all readable_line (findall ''line'' sf)"
  shows "\<exists>es. sourcefile_loop fn fp sfs acc = Inr (acc @ es)
     \<and> list_all2 entry_of
         (concat (map (\<lambda>sf. filter ci_zero (findall ''line'' sf))
            (filter (sourcefile_matches fn fp) sfs))) es"
  using assms
proof (induction sfs arbitrary: acc)
  case Nil
  then show ?case by simp
next
  case (Cons sf sfs)
  then have rest: "\<forall>x\<in>set (filter (sourcefile_matches fn fp) sfs).
      list_all readable_line (findall ''line'' x)" by simp
  show ?case
  proof (cases "sourcefile_matches fn fp sf")
    case True
    with Cons.prems have "list_all readable_line (findall ''line'' sf)" by simp
    from line_loop_readable [OF this, of acc] obtain es1 where
      es1: "line_loop (findall ''line'' sf) acc = Inr (acc @ es1)"
        "list_all2 entry_of (filter ci_zero (findall ''line'' sf)) es1" by blast
    from Cons.IH [OF rest, of "acc @ es1"] obtain es2 where
      es2: "sourcefile_loop fn fp sfs (acc @ es1) = Inr ((acc @ es1) @ es2)"
        "list_all2 entry_of
           (concat (map (\<lambda>sf. filter ci_zero (findall ''line'' sf))
              (filter (sourcefile_matches fn fp) sfs))) es2" by blast
    have "sourcefile_loop fn fp (sf # sfs) acc = Inr (acc @ es1 @ es2)"
      using True es1(1) es2(1) by simp
    moreover have "list_all2 entry_of
         (concat (map (\<lambda>sf. filter ci_zero (findall ''line'' sf))
            (filter (sourcefile_matches fn fp) (sf # sfs)))) (es1 @ es2)"
      using True es1(2) es2(2) by (simp add: list_all2_appendI)
    ultimately show ?thesis by blast
  next
    case False
    then show ?thesis using Cons.IH [OF rest, of acc] by simp
  qed
qed

lemma missing_coverage_read:
  assumes "report_path w project_path = Some path" "et_parse w path = Inr rt"
    "missing_body file_path rt = Inr report"
  shows "missing_coverage w file_path project_path = Inr (ResultDict report)"
  using assms by (auto simp: missing_coverage_def report_path_def Let_def split: if_splits)

lemma missing_body_readable:
  assumes "\<forall>sf\<in>set (selected_sourcefiles file_path rt).
      list_all readable_line (findall ''line'' sf)"
  shows "\<exists>ls. missing_body file_path rt =
        Inr \<lparr>file_key = file_path, total_uncovered_lines = length ls, uncovered_lines = ls\<rparr>
     \<and> list_all2 entry_of
         (concat (map (\<lambda>sf. filter ci_zero (findall ''line'' sf))
            (selected_sourcefiles file_path rt))) ls"
proof -
  from sourcefile_loop_readable [OF assms [unfolded selected_sourcefiles_def], of "[]"]
  obtain es where es: "sourcefile_loop (class_file_name file_path) file_path
        (findall ''sourcefile'' rt) [] = Inr ([] @ es)"
    "list_all2 entry_of
         (concat (map (\<lambda>sf. filter ci_zero (findall ''line'' sf))
            (filter (sourcefile_matches (class_file_name file_path) file_path)
               (findall ''sourcefile'' rt)))) es" by blast
  then show ?thesis
    by (auto simp: missing_body_def selected_sourcefiles_def)
qed

text \<open>
  C7, as stated, fails: in \<open>packages_report\<close> the first \<open>sourcefile\<close> entry matches
  \<open>Foo.java\<close> and has two \<open>line\<close> nodes, one with \<open>ci="0"\<close> and one with \<open>ci="3"\<close>, and
  the result contains two entries, not one: the second is the uncovered line of the
  other matched entry, the file of the same name in package \<open>b\<close>.
\<close>

theorem two_matched_sourcefiles_counterexample:
  "hd (selected_sourcefiles ''Foo.java'' packages_report) =
     Element ''sourcefile'' [(''name'', ''Foo.java'')]
       [Element ''line'' [(''nr'', ''7''), (''mi'', ''4''), (''ci'', ''0''),
                         (''mb'', ''2''), (''cb'', ''0'')] [],
        Element ''line'' [(''nr'', ''8''), (''mi'', ''0''), (''ci'', ''3''),
                         (''mb'', ''1''), (''cb'', ''1'')] []]
   \<and> int_attr_default
        (Element ''line'' [(''nr'', ''7''), (''mi'', ''4''), (''ci'', ''0''),
                          (''mb'', ''2''), (''cb'', ''0'')] []) ''ci'' = Inr 0
   \<and> int_attr_default
        (Element ''line'' [(''nr'', ''8''), (''mi'', ''0''), (''ci'', ''3''),
                          (''mb'', ''1''), (''cb'', ''1'')] []) ''ci'' = Inr 3
   \<and> missing_coverage packages_world ''Foo.java'' ''proj'' =
       Inr (ResultDict \<lparr>file_key = ''Foo.java'', total_uncovered_lines = 2,
              uncovered_lines =
                [\<lparr>line_number = 7, instruction_count = 0, branch_count = 0\<rparr>,
                 \<lparr>line_number = 12, instruction_count = 0, branch_count = 0\<rparr>]\<rparr>)"
proof -
  have "hd (selected_sourcefiles ''Foo.java'' packages_report) =
     Element ''sourcefile'' [(''name'', ''Foo.java'')]
       [Element ''line'' [(''nr'', ''7''), (''mi'', ''4''), (''ci'', ''0''),
                         (''mb'', ''2''), (''cb'', ''0'')] [],
        Element ''line'' [(''nr'', ''8''), (''mi'', ''0''), (''ci'', ''3''),
                         (''mb'', ''1''), (''cb'', ''1'')] []]"
    by code_simp
  moreover have "int_attr_default
        (Element ''line'' [(''nr'', ''7''), (''mi'', ''4''), (''ci'', ''0''),
                          (''mb'', ''2''), (''cb'', ''0'')] []) ''ci'' = Inr 0"
    by code_simp
  moreover have "int_attr_default
        (Element ''line'' [(''nr'', ''8''), (''mi'', ''0''), (''ci'', ''3''),
                          (''mb'', ''1''), (''cb'', ''1'')] []) ''ci'' = Inr 3"
    by code_simp
  moreover have "missing_coverage packages_world ''Foo.java'' ''proj'' =
       Inr (ResultDict \<lparr>file_key = ''Foo.java'', total_uncovered_lines = 2,
              uncovered_lines =
                [\<lparr>line_number = 7, instruction_count = 0, branch_count = 0\<rparr>,
                 \<lparr>line_number = 12, instruction_count = 0, branch_count = 0\<rparr>]\<rparr>)"
    by code_simp
  ultimately show ?thesis by simp
qed

text \<open>
  C7, amended. For every report that \<open>missing_coverage\<close> reads in which the lines of
  the matched \<open>sourcefile\<close> entries are readable, the result lists, in document order,
  one entry for each line of a matched entry whose \<open>ci\<close> converts to \<open>0\<close> (a missing
  \<open>ci\<close> counts as \<open>0\<close>), and no entry for any other line: the loop passes over a line
  whose \<open>ci\<close> is not \<open>0\<close>, whatever its branch attributes are. A matched entry with two \<open>line\<close> nodes, one with \<open>ci="0"\<close> and one with
  \<open>ci="3"\<close>, contributes exactly one entry, that of the first line; when it is the only
  matched entry, the result contains exactly this one entry.
\<close>

theorem missing_coverage_zero_instruction_lines:
  assumes "report_path w project_path = Some path" and "et_parse w path = Inr rt"
    and "\<forall>sf\<in>set (selected_sourcefiles file_path rt).
           list_all readable_line (findall ''line'' sf)"
  shows "\<exists>ls. missing_coverage w file_path project_path =
        Inr (ResultDict
          \<lparr>file_key = file_path, total_uncovered_lines = length ls, uncovered_lines = ls\<rparr>)
     \<and> list_all2 entry_of
          (concat (map (\<lambda>sf. filter ci_zero (findall ''line'' sf))
             (selected_sourcefiles file_path rt))) ls
     \<and> (\<forall>pre sf post l0 l3.
           selected_sourcefiles file_path rt = pre @ sf # post
             \<and> findall ''line'' sf = [l0, l3]
             \<and> int_attr_default l0 ''ci'' = Inr 0 \<and> int_attr_default l3 ''ci'' = Inr 3
           \<longrightarrow> (\<exists>lb e la. ls = lb @ e # la \<and> entry_of l0 e
                  \<and> list_all2 entry_of
                       (concat (map (\<lambda>sf. filter ci_zero (findall ''line'' sf)) pre)) lb
                  \<and> list_all2 entry_of
                       (concat (map (\<lambda>sf. filter ci_zero (findall ''line'' sf)) post)) la))
     \<and> (\<forall>sf l0 l3.
           selected_sourcefiles file_path rt = [sf] \<and> findall ''line'' sf = [l0, l3]
             \<and> int_attr_default l0 ''ci'' = Inr 0 \<and> int_attr_default l3 ''ci'' = Inr 3
           \<longrightarrow> (\<exists>e. ls = [e] \<and> entry_of l0 e))
     \<and> (\<forall>line. ci_zero line \<longleftrightarrow>
           (case attr_get line ''ci'' of None \<Rightarrow> True | Some s \<Rightarrow> py_int s = Inr 0))
     \<and> (\<forall>line rest acc ci. int_attr_default line ''ci'' = Inr ci \<and> ci \<noteq> 0
           \<longrightarrow> line_loop (line # rest) acc = line_loop rest acc)"
proof -
  let ?zero = "\<lambda>sfs. concat (map (\<lambda>sf. filter ci_zero (findall ''line'' sf)) sfs)"
  from missing_body_readable [OF assms(3)] obtain ls where
    body: "missing_body file_path rt =
        Inr \<lparr>file_key = file_path, total_uncovered_lines = length ls, uncovered_lines = ls\<rparr>"
    and all: "list_all2 entry_of (?zero (selected_sourcefiles file_path rt)) ls" by blast
  have part: "\<exists>lb e la. ls = lb @ e # la \<and> entry_of l0 e
        \<and> list_all2 entry_of (?zero pre) lb \<and> list_all2 entry_of (?zero post) la"
    if sel: "selected_sourcefiles file_path rt = pre @ sf # post"
      and lines: "findall ''line'' sf = [l0, l3]"
      and c0: "int_attr_default l0 ''ci'' = Inr 0" and c3: "int_attr_default l3 ''ci'' = Inr 3"
    for pre sf post l0 l3
  proof -
    have "filter ci_zero (findall ''line'' sf) = [l0]"
      using lines c0 c3 by (simp add: ci_zero_def)
    then have "?zero (selected_sourcefiles file_path rt) = ?zero pre @ l0 # ?zero post"
      using sel by simp
    with all have "list_all2 entry_of (?zero pre @ l0 # ?zero post) ls" by simp
    then obtain lb rest where r: "ls = lb @ rest" "list_all2 entry_of (?zero pre) lb"
      "list_all2 entry_of (l0 # ?zero post) rest"
      by (auto simp: list_all2_append1)
    from r(3) obtain e la where "rest = e # la" "entry_of l0 e" "list_all2 entry_of (?zero post) la"
      by (auto simp: list_all2_Cons1)
    with r show ?thesis by blast
  qed
  have single: "\<exists>e. ls = [e] \<and> entry_of l0 e"
    if sel: "selected_sourcefiles file_path rt = [sf]"
      and lines: "findall ''line'' sf = [l0, l3]"
      and c0: "int_attr_default l0 ''ci'' = Inr 0" and c3: "int_attr_default l3 ''ci'' = Inr 3"
    for sf l0 l3
  proof -
    from part [of "[]" sf "[]" l0 l3] sel lines c0 c3
    obtain lb e la where "ls = lb @ e # la" "entry_of l0 e" "list_all2 entry_of [] lb"
      "list_all2 entry_of [] la" by auto
    then show ?thesis by simp
  qed
  have zero: "ci_zero line \<longleftrightarrow>
      (case attr_get line ''ci'' of None \<Rightarrow> True | Some s \<Rightarrow> py_int s = Inr 0)" for line
    by (simp add: ci_zero_def int_attr_default_def split: option.splits)
  have skip: "line_loop (line # rest) acc = line_loop rest acc"
    if "int_attr_default line ''ci'' = Inr ci \<and> ci \<noteq> 0" for line rest acc ci
    using that by simp
  have p3: "\<forall>pre sf post l0 l3.
           selected_sourcefiles file_path rt = pre @ sf # post
             \<and> findall ''line'' sf = [l0, l3]
             \<and> int_attr_default l0 ''ci'' = Inr 0 \<and> int_attr_default l3 ''ci'' = Inr 3
           \<longrightarrow> (\<exists>lb e la. ls = lb @ e # la \<and> entry_of l0 e
                  \<and> list_all2 entry_of (?zero pre) lb \<and> list_all2 entry_of (?zero post) la)"
    using part by blast
  have p4: "\<forall>sf l0 l3.
           selected_sourcefiles file_path rt = [sf] \<and> findall ''line'' sf = [l0, l3]
             \<and> int_attr_default l0 ''ci'' = Inr 0 \<and> int_attr_default l3 ''ci'' = Inr 3
           \<longrightarrow> (\<exists>e. ls = [e] \<and> entry_of l0 e)"
    using single by blast
  have p5: "\<forall>line. ci_zero line \<longleftrightarrow>
           (case attr_get line ''ci'' of None \<Rightarrow> True | Some s \<Rightarrow> py_int s = Inr 0)"
    using zero by blast
  have p6: "\<forall>line rest acc ci. int_attr_default line ''ci'' = Inr ci \<and> ci \<noteq> 0
           \<longrightarrow> line_loop (line # rest) acc = line_loop rest acc"
    using skip by blast
  show ?thesis
    by (rule exI [of _ ls])
      (intro conjI missing_coverage_read [OF assms(1,2) body] all p3 p4 p5 p6)
qed


lemma example_selected:
  "selected_sourcefiles ''Foo.java'' example_report =
     [Element ''sourcefile'' [(''name'', ''Foo.java'')]
        [Element ''line'' [(''nr'', ''3''), (''mi'', ''2''), (''ci'', ''0''),
                          (''mb'', ''0''), (''cb'', ''0'')] [],
         Element ''line'' [(''nr'', ''4''), (''mi'', ''0''), (''ci'', ''3''),
                          (''mb'', ''1''), (''cb'', ''1'')] [],
         Element ''counter'' [(''type'', ''LINE''), (''missed'', ''1''),
                             (''covered'', ''1'')] []]]"
  by code_simp

lemma example_lines:
  "findall ''line''
     (Element ''sourcefile'' [(''name'', ''Foo.java'')]
        [Element ''line'' [(''nr'', ''3''), (''mi'', ''2''), (''ci'', ''0''),
                          (''mb'', ''0''), (''cb'', ''0'')] [],
         Element ''line'' [(''nr'', ''4''), (''mi'', ''0''), (''ci'', ''3''),
                          (''mb'', ''1''), (''cb'', ''1'')] [],
         Element ''counter'' [(''type'', ''LINE''), (''missed'', ''1''),
                             (''covered'', ''1'')] []]) =
     [Element ''line'' [(''nr'', ''3''), (''mi'', ''2''), (''ci'', ''0''),
                       (''mb'', ''0''), (''cb'', ''0'')] [],
      Element ''line'' [(''nr'', ''4''), (''mi'', ''0''), (''ci'', ''3''),
                       (''mb'', ''1''), (''cb'', ''1'')] []]"
  "int_attr_default
     (Element ''line'' [(''nr'', ''3''), (''mi'', ''2''), (''ci'', ''0''),
                       (''mb'', ''0''), (''cb'', ''0'')] []) ''ci'' = Inr 0"
  "int_attr_default
     (Element ''line'' [(''nr'', ''4''), (''mi'', ''0''), (''ci'', ''3''),
                       (''mb'', ''1''), (''cb'', ''1'')] []) ''ci'' = Inr 3"
  by code_simp+

lemma example_readable:
  "\<forall>sf\<in>set (selected_sourcefiles ''Foo.java'' example_report).
     list_all readable_line (findall ''line'' sf)"
  by code_simp

theorem missing_coverage_zero_instruction_lines_witness:
  "report_path example_world ''proj'' = Some ''proj/target/jacoco.xml''
   \<and> et_parse example_world ''proj/target/jacoco.xml'' = Inr example_report
   \<and> list_all (\<lambda>sf. list_all readable_line (findall ''line'' sf))
         (selected_sourcefiles ''Foo.java'' example_report)
   \<and> (\<exists>e. missing_coverage example_world ''Foo.java'' ''proj'' =
          Inr (ResultDict
            \<lparr>file_key = ''Foo.java'', total_uncovered_lines = 1, uncovered_lines = [e]\<rparr>)
        \<and> entry_of
             (Element ''line'' [(''nr'', ''3''), (''mi'', ''2''), (''ci'', ''0''),
                               (''mb'', ''0''), (''cb'', ''0'')] []) e)
   \<and> missing_coverage example_world ''Foo.java'' ''proj'' =
       Inr (ResultDict \<lparr>file_key = ''Foo.java'', total_uncovered_lines = 1,
              uncovered_lines =
                [\<lparr>line_number = 3, instruction_count = 0, branch_count = 0\<rparr>]\<rparr>)"
proof -
  have run: "missing_coverage example_world ''Foo.java'' ''proj'' =
       Inr (ResultDict \<lparr>file_key = ''Foo.java'', total_uncovered_lines = 1,
              uncovered_lines =
                [\<lparr>line_number = 3, instruction_count = 0, branch_count = 0\<rparr>]\<rparr>)"
    by code_simp
  let ?l0 = "Element ''line'' [(''nr'', ''3''), (''mi'', ''2''), (''ci'', ''0''),
                               (''mb'', ''0''), (''cb'', ''0'')] []"
  from missing_coverage_zero_instruction_lines [OF example_read example_readable]
  obtain ls where ls: "missing_coverage example_world ''Foo.java'' ''proj'' =
        Inr (ResultDict
          \<lparr>file_key = ''Foo.java'', total_uncovered_lines = length ls, uncovered_lines = ls\<rparr>)"
    and single: "\<forall>sf l0 l3.
           selected_sourcefiles ''Foo.java'' example_report = [sf] \<and> findall ''line'' sf = [l0, l3]
             \<and> int_attr_default l0 ''ci'' = Inr 0 \<and> int_attr_default l3 ''ci'' = Inr 3
           \<longrightarrow> (\<exists>e. ls = [e] \<and> entry_of l0 e)"
    by (elim exE conjE) (rule that, assumption+)
  have "\<exists>e. ls = [e] \<and> entry_of ?l0 e"
    apply (rule single [rule_format])
    apply (intro conjI)
       apply (rule example_selected)
      apply (rule example_lines(1))
     apply (rule example_lines(2))
    apply (rule example_lines(3))
    done
  then obtain e where "ls = [e]" "entry_of ?l0 e" by blast
  with ls have "missing_coverage example_world ''Foo.java'' ''proj'' =
      Inr (ResultDict
        \<lparr>file_key = ''Foo.java'', total_uncovered_lines = 1, uncovered_lines = [e]\<rparr>)
      \<and> entry_of ?l0 e" by simp
  with run example_read example_readable show ?thesis by (simp add: list_all_iff)
qed

section \<open>Which source files are selected\<close>
















end
